theory Spec2Isabelle
  imports Complex_Main "HOL-Library.Multiset"
begin

section \<open>Script definitions\<close>

text \<open>
  A script is a JSON document. The fields that the loader inspects dynamically keep
  their dynamic shape: \<open>time\<close> is any JSON scalar (the loader asks for its
  \<open>typeof\<close>), \<open>scriptId\<close>, \<open>name\<close> and \<open>action\<close> are a string or
  missing (the loader asks whether they are truthy), \<open>timeline\<close> is an array or
  missing. \<open>duration\<close> is a number or missing, as the schema of the design
  document types it. The schema leaves the content of \<open>params\<close> open;
  \<open>params.duration\<close> is taken to be a number or missing, as in every script of the
  design document. JavaScript numbers are modelled as reals; no claim depends on
  rounding.
\<close>

datatype jsval = JUndefined | JNull | JBool bool | JNum real | JStr string

text \<open>\<open>typeof v === 'number'\<close>\<close>

fun isNumber :: "jsval \<Rightarrow> bool" where
  "isNumber (JNum x) = True"
| "isNumber v = False"

text \<open>Truthiness of an optional string field: missing and \<open>''\<close> are falsy.\<close>

fun truthyStr :: "string option \<Rightarrow> bool" where
  "truthyStr None = False"
| "truthyStr (Some s) = (s \<noteq> [])"

text \<open>Truthiness of an optional number field: missing and \<open>0\<close> are falsy.\<close>

fun truthyNum :: "real option \<Rightarrow> bool" where
  "truthyNum None = False"
| "truthyNum (Some x) = (x \<noteq> 0)"

record params =
  p_duration :: "real option"
  p_other :: "(string \<times> jsval) list"

record actionDef =
  time :: jsval
  action :: "string option"
  params :: "params option"

record interaction =
  targetSet :: nat
  i_startTime :: real
  i_scriptId :: "string option"

record script =
  scriptId :: "string option"
  name :: "string option"
  description :: "string option"
  duration :: "real option"
  interactions :: "interaction list option"
  timeline :: "actionDef list option"

subsection \<open>validateScript\<close>

text \<open>The loop over the timeline: the first offending entry returns \<open>false\<close>.\<close>

fun validateTimeline :: "actionDef list \<Rightarrow> bool" where
  "validateTimeline [] = True"
| "validateTimeline (a # as) =
     (if \<not> isNumber (time a) \<or> \<not> truthyStr (action a) then False
      else validateTimeline as)"

definition validateScript :: "script \<Rightarrow> bool" where
  "validateScript s =
     (case timeline s of
        None \<Rightarrow> False
      | Some entries \<Rightarrow>
          if \<not> truthyStr (scriptId s) \<or> \<not> truthyStr (name s) then False
          else validateTimeline entries)"

subsection \<open>Array.prototype.sort with a comparator\<close>

text \<open>
  The host's sort is stable: an element moves in front of another only when the
  comparator says it is strictly smaller. It is modelled as insertion from the right,
  each element placed in front of the first one it is not greater than.
\<close>

fun insertBy :: "('a \<Rightarrow> 'a \<Rightarrow> real) \<Rightarrow> 'a \<Rightarrow> 'a list \<Rightarrow> 'a list" where
  "insertBy cmp x [] = [x]"
| "insertBy cmp x (y # ys) =
     (if cmp x y \<le> 0 then x # y # ys else y # insertBy cmp x ys)"

fun arraySort :: "('a \<Rightarrow> 'a \<Rightarrow> real) \<Rightarrow> 'a list \<Rightarrow> 'a list" where
  "arraySort cmp [] = []"
| "arraySort cmp (x # xs) = insertBy cmp x (arraySort cmp xs)"

text \<open>
  The number held by a \<open>time\<close> field. After \<open>validateScript\<close> every \<open>time\<close> is a
  number, so the other case is never reached by the loader.
\<close>

definition timeOf :: "actionDef \<Rightarrow> real" where
  "timeOf a = (case time a of JNum t \<Rightarrow> t | _ \<Rightarrow> 0)"

text \<open>The comparator \<open>(a, b) => a.time - b.time\<close>.\<close>

definition byTime :: "actionDef \<Rightarrow> actionDef \<Rightarrow> real" where
  "byTime a b = timeOf a - timeOf b"

subsection \<open>loadScript\<close>

text \<open>What \<open>fetch\<close> and \<open>response.json()\<close> produce for a script identifier.\<close>

datatype fetched = FetchRejected | NotOk | NotJson | Json script

text \<open>
  The exceptions raised inside the \<open>try\<close> block: the two thrown by the loader itself,
  and the runtime errors of the host (a rejected fetch, a document that does not parse,
  a property read on \<open>undefined\<close>).
\<close>

datatype loadError = ScriptNotFound | InvalidScript | HostError

text \<open>\<open>loadedScripts\<close> is a \<open>Map\<close>: an association list in insertion order.\<close>

type_synonym scriptCache = "(string \<times> script) list"

fun mapSet :: "'k \<Rightarrow> 'v \<Rightarrow> ('k \<times> 'v) list \<Rightarrow> ('k \<times> 'v) list" where
  "mapSet k v [] = [(k, v)]"
| "mapSet k v ((k', v') # kvs) =
     (if k' = k then (k, v) # kvs else (k', v') # mapSet k v kvs)"

text \<open>\<open>lastAction.params?.duration || 0\<close>\<close>

definition paramsDurationOrZero :: "actionDef \<Rightarrow> real" where
  "paramsDurationOrZero a =
     (case params a of
        None \<Rightarrow> 0
      | Some p \<Rightarrow>
          (case p_duration p of
             None \<Rightarrow> 0
           | Some d \<Rightarrow> if d \<noteq> 0 then d else 0))"

text \<open>
  The duration step. Reading \<open>.time\<close> of the last entry of an empty timeline is a
  \<open>TypeError\<close>.
\<close>

definition withDuration :: "script \<Rightarrow> actionDef list \<Rightarrow> loadError + script" where
  "withDuration s entries =
     (if \<not> truthyNum (duration s) then
        (case entries of
           [] \<Rightarrow> Inl HostError
         | _ \<Rightarrow>
            Inr (s\<lparr>duration :=
                   Some (timeOf (last entries) + paramsDurationOrZero (last entries))\<rparr>))
      else Inr s)"

text \<open>
  The body of the \<open>try\<close> block of \<open>loadScript\<close>, after the cache lookup. A
  validated script has a timeline, so its \<open>None\<close> case is never reached.
\<close>

definition loadScriptTry ::
  "(string \<Rightarrow> fetched) \<Rightarrow> scriptCache \<Rightarrow> string \<Rightarrow> loadError + (script \<times> scriptCache)" where
  "loadScriptTry fetch cache sid =
     (case fetch sid of
        FetchRejected \<Rightarrow> Inl HostError
      | NotOk \<Rightarrow> Inl ScriptNotFound
      | NotJson \<Rightarrow> Inl HostError
      | Json scriptObject \<Rightarrow>
          if \<not> validateScript scriptObject then Inl InvalidScript
          else
            (case timeline scriptObject of
               None \<Rightarrow> Inl HostError
             | Some unsorted \<Rightarrow>
                 (let entries = arraySort byTime unsorted;
                      sortedObject = scriptObject\<lparr>timeline := Some entries\<rparr>
                  in case withDuration sortedObject entries of
                       Inl e \<Rightarrow> Inl e
                     | Inr final \<Rightarrow> Inr (final, mapSet sid final cache))))"

text \<open>
  \<open>loadScript\<close>: a cached definition is returned as it is; otherwise the \<open>try\<close>
  block runs and the \<open>catch\<close> turns every exception into \<open>null\<close>, leaving the cache
  as it was.
\<close>

definition loadScript ::
  "(string \<Rightarrow> fetched) \<Rightarrow> scriptCache \<Rightarrow> string \<Rightarrow> script option \<times> scriptCache" where
  "loadScript fetch cache sid =
     (case map_of cache sid of
        Some cached \<Rightarrow> (Some cached, cache)
      | None \<Rightarrow>
          (case loadScriptTry fetch cache sid of
             Inl e \<Rightarrow> (None, cache)
           | Inr (scriptObject, cache') \<Rightarrow> (Some scriptObject, cache')))"


section \<open>Eye-sets, script instances and timers\<close>

datatype BehaviorType = AUTONOMOUS | TRACKING | SCRIPTED

type_synonym handle = nat

text \<open>
  A \<open>ScriptInstance\<close>. The object is referenced from \<open>eyeSet.currentScript\<close>, from
  \<open>scriptInstances\<close> (set and deleted together with \<open>currentScript\<close>) and from the
  closures of its own interaction timers; \<open>instId\<close> stands for its identity.
  \<open>interactionInstances\<close> receives what each spawned \<open>executeScript\<close> call resolves to
  (the call is \<open>async\<close>, so the pushed promise is always truthy). \<open>onComplete\<close> is
  a callback, named by a number.
\<close>

record ScriptInstance =
  instId :: nat
  scriptObject :: script
  setIndex :: nat
  startTime :: int
  scheduledActions :: "handle list"
  interactionInstances :: "nat option list"
  isRunning :: bool
  onComplete :: "nat option"

text \<open>
  The part of an eye-set that the engine reads and writes. The blink, move and drip
  timers of the idle animation and the focal-point loop belong to the rendering layer;
  here they are the two flags \<open>animationsRunning\<close> and \<open>trackingRunning\<close>.
\<close>

record eyeSet =
  visible :: bool
  behavior :: BehaviorType
  currentScript :: "ScriptInstance option"
  lastBehaviorChange :: int
  animationsRunning :: bool
  trackingRunning :: bool

text \<open>
  The closures handed to \<open>setTimeout\<close>: a timeline action, an interaction (with the
  identity and eye-set of the instance that scheduled it, the interaction and the
  script identifier of the enclosing call), a completion, and the director's evaluation.
\<close>

datatype callback =
    RunAction nat string params
  | RunInteraction nat nat interaction string
  | RunCompletion nat
  | RunDirector

text \<open>
  A pending timer. \<open>owner\<close> records the instance whose \<open>executeScript\<close> call
  created it; the code has no such field, it only serves to state which callbacks
  belong to which instance.
\<close>

record timer =
  due :: real
  owner :: "nat option"
  callback :: callback

datatype event =
    ActionCalled string nat params
  | OnCompleteCalled nat
  | SaveStateRequested

record directorState =
  enabled :: bool
  mode :: string
  lastScriptTime :: int
  scriptCooldown :: int
  evaluationInterval :: real
  evaluationTimeoutId :: "handle option"
  triggerProbabilities :: "(string \<times> real) list"
  interactionChance :: real

record directorConfig =
  scriptWeights :: "(string \<times> real) list"
  multipleEyesVisible :: "string list"
  singleEyeVisible :: "string list"

text \<open>
  The globals of the module. \<open>actionRegistry\<close> maps an action name to the name of
  its handler; a call of a handler, a call of an \<open>onComplete\<close> callback and a call of
  \<open>debouncedSaveState\<close> are recorded in \<open>events\<close>. \<open>randomCalls\<close> counts the calls
  of \<open>Math.random\<close> so far.
\<close>

record state =
  eyeSets :: "eyeSet option list"
  scriptInstances :: "(nat \<times> nat) list"
  loadedScripts :: scriptCache
  defaultScripts :: "(nat \<times> string) list"
  actionRegistry :: "(string \<times> string) list"
  timers :: "(handle \<times> timer) list"
  nextHandle :: handle
  nextInstId :: nat
  director :: directorState
  config :: directorConfig
  randomCalls :: nat
  events :: "event list"

text \<open>\<open>eyeSets[setIndex]\<close>: \<open>undefined\<close> beyond the end of the array.\<close>

definition eyeSetAt :: "state \<Rightarrow> nat \<Rightarrow> eyeSet option" where
  "eyeSetAt s i = (if i < length (eyeSets s) then eyeSets s ! i else None)"

definition putEyeSet :: "nat \<Rightarrow> eyeSet \<Rightarrow> state \<Rightarrow> state" where
  "putEyeSet i e s = s\<lparr>eyeSets := (eyeSets s)[i := Some e]\<rparr>"

text \<open>An assignment to fields of the eye-set object at an index.\<close>

definition updEyeSet :: "nat \<Rightarrow> (eyeSet \<Rightarrow> eyeSet) \<Rightarrow> state \<Rightarrow> state" where
  "updEyeSet i f s =
     (case eyeSetAt s i of None \<Rightarrow> s | Some e \<Rightarrow> putEyeSet i (f e) s)"

subsection \<open>The host's timers\<close>

definition setTimeout ::
  "callback \<Rightarrow> real \<Rightarrow> int \<Rightarrow> nat option \<Rightarrow> state \<Rightarrow> handle \<times> state" where
  "setTimeout cb delay now own s =
     (nextHandle s,
      s\<lparr>timers := timers s @ [(nextHandle s, \<lparr>due = real_of_int now + delay, owner = own, callback = cb\<rparr>)],
        nextHandle := Suc (nextHandle s)\<rparr>)"

definition clearTimeout :: "handle \<Rightarrow> state \<Rightarrow> state" where
  "clearTimeout h s = s\<lparr>timers := filter (\<lambda>ht. fst ht \<noteq> h) (timers s)\<rparr>"

subsection \<open>The rendering layer's hooks\<close>

text \<open>
  Modelled from the spec: \<open>stopEyeSetAnimations\<close>, \<open>startEyeSetAnimations\<close>,
  \<open>stopEyeSetTracking\<close> and \<open>startEyeSetTracking\<close> are called by the engine but
  defined outside the files at hand. The design document lists the first two as
  clearing and initialising the blink, move and drip timers of an eye-set; the other
  two stop and start its focal-point loop. None of them touches a script's timers.
\<close>

definition stopEyeSetAnimations :: "nat \<Rightarrow> state \<Rightarrow> state" where
  "stopEyeSetAnimations i s = updEyeSet i (\<lambda>e. e\<lparr>animationsRunning := False\<rparr>) s"

definition startEyeSetAnimations :: "nat \<Rightarrow> state \<Rightarrow> state" where
  "startEyeSetAnimations i s = updEyeSet i (\<lambda>e. e\<lparr>animationsRunning := True\<rparr>) s"

definition stopEyeSetTracking :: "nat \<Rightarrow> state \<Rightarrow> state" where
  "stopEyeSetTracking i s = updEyeSet i (\<lambda>e. e\<lparr>trackingRunning := False\<rparr>) s"

definition startEyeSetTracking :: "nat \<Rightarrow> state \<Rightarrow> state" where
  "startEyeSetTracking i s = updEyeSet i (\<lambda>e. e\<lparr>trackingRunning := True\<rparr>) s"

definition debouncedSaveState :: "state \<Rightarrow> state" where
  "debouncedSaveState s = s\<lparr>events := events s @ [SaveStateRequested]\<rparr>"

subsection \<open>executeAction\<close>

definition executeAction :: "nat \<Rightarrow> string \<Rightarrow> params \<Rightarrow> state \<Rightarrow> state" where
  "executeAction i actionName ps s =
     (case eyeSetAt s i of
        None \<Rightarrow> s
      | Some e \<Rightarrow>
          if \<not> visible e then s
          else
            (case map_of (actionRegistry s) actionName of
               None \<Rightarrow> s
             | Some actionFunction \<Rightarrow>
                 s\<lparr>events := events s @ [ActionCalled actionFunction i ps]\<rparr>))"

subsection \<open>completeScript and stopScript\<close>

fun clearAll :: "handle list \<Rightarrow> state \<Rightarrow> state" where
  "clearAll [] s = s"
| "clearAll (h # hs) s = clearAll hs (clearTimeout h s)"

definition callOnComplete :: "ScriptInstance \<Rightarrow> state \<Rightarrow> state" where
  "callOnComplete inst s =
     (case onComplete inst of
        None \<Rightarrow> s
      | Some cb \<Rightarrow> s\<lparr>events := events s @ [OnCompleteCalled cb]\<rparr>)"

fun mapDelete :: "'k \<Rightarrow> ('k \<times> 'v) list \<Rightarrow> ('k \<times> 'v) list" where
  "mapDelete k [] = []"
| "mapDelete k ((k', v) # kvs) = (if k' = k then kvs else (k', v) # mapDelete k kvs)"

definition completeScript :: "int \<Rightarrow> nat \<Rightarrow> state \<Rightarrow> state" where
  "completeScript now i s =
     (case eyeSetAt s i of
        None \<Rightarrow> s
      | Some e \<Rightarrow>
          (case currentScript e of
             None \<Rightarrow> s
           | Some inst \<Rightarrow>
               (let s1 = clearAll (scheduledActions inst) s;
                    s2 = callOnComplete (inst\<lparr>isRunning := False, scheduledActions := []\<rparr>) s1;
                    s3 = updEyeSet i (\<lambda>e. e\<lparr>currentScript := None\<rparr>) s2;
                    s4 = s3\<lparr>scriptInstances := mapDelete i (scriptInstances s3)\<rparr>;
                    s5 = updEyeSet i
                           (\<lambda>e. e\<lparr>behavior := AUTONOMOUS, lastBehaviorChange := now\<rparr>) s4
                in startEyeSetAnimations i s5)))"

definition stopScript :: "int \<Rightarrow> nat \<Rightarrow> state \<Rightarrow> state" where
  "stopScript now i s =
     (case eyeSetAt s i of
        None \<Rightarrow> s
      | Some e \<Rightarrow>
          (case currentScript e of
             None \<Rightarrow> s
           | Some inst \<Rightarrow> completeScript now i s))"


subsection \<open>executeScript\<close>

text \<open>A mutation of the instance held in \<open>currentScript\<close> of an eye-set.\<close>

definition updInstance :: "nat \<Rightarrow> (ScriptInstance \<Rightarrow> ScriptInstance) \<Rightarrow> state \<Rightarrow> state" where
  "updInstance i f s =
     updEyeSet i (\<lambda>e. e\<lparr>currentScript := map_option f (currentScript e)\<rparr>) s"

definition pushScheduled :: "nat \<Rightarrow> handle \<Rightarrow> state \<Rightarrow> state" where
  "pushScheduled i h s =
     updInstance i (\<lambda>inst. inst\<lparr>scheduledActions := scheduledActions inst @ [h]\<rparr>) s"

text \<open>
  \<open>actionDef.action\<close> as the property key it becomes in \<open>executeAction\<close>, and
  \<open>actionDef.params || {}\<close>.
\<close>

definition actionKey :: "actionDef \<Rightarrow> string" where
  "actionKey a = (case action a of None \<Rightarrow> ''undefined'' | Some n \<Rightarrow> n)"

definition paramsOrEmpty :: "actionDef \<Rightarrow> params" where
  "paramsOrEmpty a =
     (case params a of None \<Rightarrow> \<lparr>p_duration = None, p_other = []\<rparr> | Some p \<Rightarrow> p)"

text \<open>The loop that schedules the timeline actions.\<close>

fun scheduleTimeline :: "int \<Rightarrow> nat \<Rightarrow> nat \<Rightarrow> actionDef list \<Rightarrow> state \<Rightarrow> state" where
  "scheduleTimeline now i iid [] s = s"
| "scheduleTimeline now i iid (actionDef # rest) s =
     (let (timeoutId, s1) =
            setTimeout (RunAction i (actionKey actionDef) (paramsOrEmpty actionDef))
              (timeOf actionDef * 1000) now (Some iid) s
      in scheduleTimeline now i iid rest (pushScheduled i timeoutId s1))"

text \<open>The loop that schedules the interactions.\<close>

fun scheduleInteractions ::
  "int \<Rightarrow> nat \<Rightarrow> nat \<Rightarrow> string \<Rightarrow> interaction list \<Rightarrow> state \<Rightarrow> state" where
  "scheduleInteractions now i iid sid [] s = s"
| "scheduleInteractions now i iid sid (interaction # rest) s =
     (let (interactionTimeoutId, s1) =
            setTimeout (RunInteraction iid i interaction sid) (i_startTime interaction * 1000) now
              (Some iid) s
      in scheduleInteractions now i iid sid rest (pushScheduled i interactionTimeoutId s1))"

text \<open>
  \<open>scriptObject.duration * 1000\<close>; a missing duration gives \<open>NaN\<close>, which the host's
  timer takes as no delay.
\<close>

definition durationMs :: "script \<Rightarrow> real" where
  "durationMs sc = (case duration sc of None \<Rightarrow> 0 | Some d \<Rightarrow> d * 1000)"

text \<open>
  The steps of \<open>executeScript\<close> between the load and the scheduling: the idle
  animation is stopped, the eye-set becomes scripted, and a new instance is registered
  as its \<open>currentScript\<close> and in \<open>scriptInstances\<close>.
\<close>

definition registerInstance :: "int \<Rightarrow> nat \<Rightarrow> script \<Rightarrow> state \<Rightarrow> nat \<times> state" where
  "registerInstance now i scriptObj s0 =
     (let s1 = stopEyeSetAnimations i s0;
          s2 = updEyeSet i (\<lambda>e. e\<lparr>behavior := SCRIPTED, lastBehaviorChange := now\<rparr>) s1;
          iid = nextInstId s2;
          inst = \<lparr>instId = iid, scriptObject = scriptObj, setIndex = i, startTime = now,
                  scheduledActions = [], interactionInstances = [], isRunning = True,
                  onComplete = None\<rparr>;
          s3 = (updEyeSet i (\<lambda>e. e\<lparr>currentScript := Some inst\<rparr>) s2)\<lparr>nextInstId := Suc iid\<rparr>;
          s4 = s3\<lparr>scriptInstances := mapSet i iid (scriptInstances s3)\<rparr>
      in (iid, s4))"

text \<open>
  The scheduling steps of \<open>executeScript\<close>: the timeline actions, the interactions
  when the script has any, and the completion.
\<close>

definition scheduleScript ::
  "int \<Rightarrow> nat \<Rightarrow> nat \<Rightarrow> string \<Rightarrow> script \<Rightarrow> actionDef list \<Rightarrow> state \<Rightarrow> state" where
  "scheduleScript now i iid sid scriptObj entries s4 =
     (let s5 = scheduleTimeline now i iid entries s4;
          s6 = (case interactions scriptObj of
                  None \<Rightarrow> s5
                | Some interactionList \<Rightarrow>
                    scheduleInteractions now i iid sid interactionList s5);
          (completionTimeoutId, s7) =
            setTimeout (RunCompletion i) (durationMs scriptObj) now (Some iid) s6
      in pushScheduled i completionTimeoutId s7)"

text \<open>
  \<open>executeScript\<close>. The function is \<open>async\<close> and awaits \<open>loadScript\<close>; the load is
  taken to settle before any other timer callback runs, so that the call is one step.
  \<open>fetch\<close> is the script directory, \<open>now\<close> the value of \<open>Date.now()\<close>. The result
  is the identity of the new instance, or \<open>None\<close> for \<open>null\<close>. Iterating a cached
  definition without a timeline would raise after the instance is registered; the
  loader never caches such a definition.
\<close>

definition executeScript ::
  "(string \<Rightarrow> fetched) \<Rightarrow> int \<Rightarrow> nat \<Rightarrow> string \<Rightarrow> state \<Rightarrow> nat option \<times> state" where
  "executeScript fetch now i sid s =
     (case eyeSetAt s i of
        None \<Rightarrow> (None, s)
      | Some e \<Rightarrow>
          if \<not> visible e then (None, s)
          else
            (case loadScript fetch (loadedScripts s) sid of
               (loaded, cache) \<Rightarrow>
                 (let s0 = s\<lparr>loadedScripts := cache\<rparr> in
                  case loaded of
                    None \<Rightarrow> (None, s0)
                  | Some scriptObj \<Rightarrow>
                      (let (iid, s4) = registerInstance now i scriptObj s0
                       in case timeline scriptObj of
                            None \<Rightarrow> (None, s4)
                          | Some entries \<Rightarrow>
                              (Some iid, scheduleScript now i iid sid scriptObj entries s4)))))"

section \<open>Behavior management\<close>

definition setEyeBehavior :: "int \<Rightarrow> nat \<Rightarrow> BehaviorType \<Rightarrow> state \<Rightarrow> state" where
  "setEyeBehavior now i b s =
     (case eyeSetAt s i of
        None \<Rightarrow> s
      | Some e \<Rightarrow>
          (let s1 = (if behavior e = SCRIPTED \<and> currentScript e \<noteq> None then stopScript now i s
                     else if behavior e = TRACKING then stopEyeSetTracking i s
                     else stopEyeSetAnimations i s);
               s2 = updEyeSet i (\<lambda>e. e\<lparr>behavior := b, lastBehaviorChange := now\<rparr>) s1;
               s3 = (case b of
                       AUTONOMOUS \<Rightarrow> startEyeSetAnimations i s2
                     | TRACKING \<Rightarrow> startEyeSetTracking i s2
                     | SCRIPTED \<Rightarrow> s2)
           in debouncedSaveState s3))"

text \<open>\<open>Array.prototype.indexOf\<close>: \<open>-1\<close> when the value is absent.\<close>

fun indexOfFrom :: "'a list \<Rightarrow> 'a \<Rightarrow> int \<Rightarrow> int" where
  "indexOfFrom [] x k = -1"
| "indexOfFrom (y # ys) x k = (if y = x then k else indexOfFrom ys x (k + 1))"

definition indexOf :: "'a list \<Rightarrow> 'a \<Rightarrow> int" where
  "indexOf xs x = indexOfFrom xs x 0"

definition behaviors :: "BehaviorType list" where
  "behaviors = [AUTONOMOUS, TRACKING, SCRIPTED]"

definition cycleBehavior :: "(string \<Rightarrow> fetched) \<Rightarrow> int \<Rightarrow> nat \<Rightarrow> state \<Rightarrow> state" where
  "cycleBehavior fetch now i s =
     (case eyeSetAt s i of
        None \<Rightarrow> s
      | Some e \<Rightarrow>
          (let currentIndex = indexOf behaviors (behavior e);
               nextIndex = (currentIndex + 1) mod int (length behaviors);
               nextBehavior = behaviors ! nat nextIndex
           in if nextBehavior = SCRIPTED then
                (case map_of (defaultScripts s) i of
                   None \<Rightarrow> setEyeBehavior now i AUTONOMOUS s
                 | Some defaultScript \<Rightarrow>
                     if defaultScript \<noteq> [] then snd (executeScript fetch now i defaultScript s)
                     else setEyeBehavior now i AUTONOMOUS s)
              else setEyeBehavior now i nextBehavior s))"


section \<open>The director\<close>

text \<open>\<open>Math.random()\<close>: the next value of the random source \<open>rnd\<close>.\<close>

definition mathRandom :: "(nat \<Rightarrow> real) \<Rightarrow> state \<Rightarrow> real \<times> state" where
  "mathRandom rnd s = (rnd (randomCalls s), s\<lparr>randomCalls := Suc (randomCalls s)\<rparr>)"

subsection \<open>weightedRandomChoice\<close>

text \<open>
  The loop over \<open>Object.entries(weights)\<close>, entries in insertion order, with the
  running value of \<open>cumulative\<close>. \<open>None\<close> when the loop ends without returning.
\<close>

fun weightedLoop :: "(string \<times> 'a::{plus,ord}) list \<Rightarrow> 'a \<Rightarrow> 'a \<Rightarrow> string option" where
  "weightedLoop [] rand cumulative = None"
| "weightedLoop ((choice, probability) # rest) rand cumulative =
     (if rand < cumulative + probability then Some choice
      else weightedLoop rest rand (cumulative + probability))"

text \<open>
  \<open>weightedRandomChoice\<close>, with \<open>rand\<close> the value its first line draws. The result
  is \<open>None\<close> for \<open>undefined\<close>, the first key of an empty table.
\<close>

definition weightedRandomChoice :: "(string \<times> 'a::{zero,plus,ord}) list \<Rightarrow> 'a \<Rightarrow> string option" where
  "weightedRandomChoice weights rand =
     (case weightedLoop weights rand 0 of
        Some choice \<Rightarrow> Some choice
      | None \<Rightarrow> (case weights of [] \<Rightarrow> None | kv # rest \<Rightarrow> Some (fst kv)))"

subsection \<open>weightedRandomScriptChoice\<close>

text \<open>\<open>directorConfig.scriptWeights[id] || 1.0\<close>\<close>

definition weightOrOne :: "state \<Rightarrow> string \<Rightarrow> real" where
  "weightOrOne s sid =
     (case map_of (scriptWeights (config s)) sid of
        None \<Rightarrow> 1
      | Some w \<Rightarrow> if w \<noteq> 0 then w else 1)"

fun scriptLoop :: "state \<Rightarrow> string list \<Rightarrow> real \<Rightarrow> string option" where
  "scriptLoop s [] rand = None"
| "scriptLoop s (sid # rest) rand =
     (if rand - weightOrOne s sid \<le> 0 then Some sid
      else scriptLoop s rest (rand - weightOrOne s sid))"

definition weightedRandomScriptChoice ::
  "(nat \<Rightarrow> real) \<Rightarrow> string list \<Rightarrow> state \<Rightarrow> string option \<times> state" where
  "weightedRandomScriptChoice rnd scriptIds s =
     (let available =
            filter (\<lambda>sid. map_of (loadedScripts s) sid \<noteq> None \<and>
                          map_of (scriptWeights (config s)) sid \<noteq> None) scriptIds
      in case available of
           [] \<Rightarrow> (None, s)
         | first # others \<Rightarrow>
             (let totalWeight = foldl (\<lambda>sum sid. sum + weightOrOne s sid) 0 available;
                  (r, s1) = mathRandom rnd s
              in (case scriptLoop s available (r * totalWeight) of
                    Some sid \<Rightarrow> (Some sid, s1)
                  | None \<Rightarrow> (Some first, s1))))"

subsection \<open>triggerDirectorScript\<close>

text \<open>
  \<open>triggerDirectorScript\<close> calls \<open>executeScript\<close> without awaiting it: the call
  checks the eye-set and finds the script in the cache at once, and its remainder runs
  when the evaluation has returned. The result here is that pending call, if any.
\<close>

definition triggerDirectorScript ::
  "(nat \<Rightarrow> real) \<Rightarrow> nat \<Rightarrow> nat list \<Rightarrow> state \<Rightarrow> (nat \<times> string) option \<times> state" where
  "triggerDirectorScript rnd i visibleSets s =
     (let (shouldInteract, s1) =
            (if length visibleSets > 1
             then (let (r, s') = mathRandom rnd s in (r < interactionChance (director s'), s'))
             else (False, s));
          (chosen, s2) =
            (if shouldInteract
             then weightedRandomScriptChoice rnd (multipleEyesVisible (config s1)) s1
             else weightedRandomScriptChoice rnd (singleEyeVisible (config s1)) s1)
      in case chosen of
           None \<Rightarrow> (None, s2)
         | Some sid \<Rightarrow> if sid \<noteq> [] then (Some (i, sid), s2) else (None, s2))"

subsection \<open>evaluateDirector\<close>

definition scheduleDirectorEvaluation :: "(nat \<Rightarrow> real) \<Rightarrow> int \<Rightarrow> state \<Rightarrow> state" where
  "scheduleDirectorEvaluation rnd now s =
     (if \<not> enabled (director s) then s
      else
        (let (r, s1) = mathRandom rnd s;
             jitter = r * 2000 - 1000;
             delay = evaluationInterval (director s1) + jitter;
             (h, s2) = setTimeout RunDirector delay now None s1
         in s2\<lparr>director := (director s2)\<lparr>evaluationTimeoutId := Some h\<rparr>\<rparr>))"

text \<open>The indices of the eye-sets that exist and are visible.\<close>

definition visibleIndices :: "state \<Rightarrow> nat list" where
  "visibleIndices s =
     filter (\<lambda>idx. case eyeSetAt s idx of None \<Rightarrow> False | Some e \<Rightarrow> visible e)
       [0..<length (eyeSets s)]"

text \<open>
  The body of the loop over the visible eye-sets, for the eye-set at \<open>idx\<close>. The
  pending \<open>executeScript\<close> calls are collected in order.
\<close>

definition directorVisit ::
  "(nat \<Rightarrow> real) \<Rightarrow> int \<Rightarrow> nat list \<Rightarrow> nat \<Rightarrow> (nat \<times> string) list \<times> state \<Rightarrow>
     (nat \<times> string) list \<times> state" where
  "directorVisit rnd now visibleSets idx cs =
     (case cs of (calls, s) \<Rightarrow>
        (case eyeSetAt s idx of
           None \<Rightarrow> (calls, s)
         | Some e \<Rightarrow>
             if currentScript e \<noteq> None \<or> now - lastBehaviorChange e < 3000 then (calls, s)
             else
               (let (rand, s1) = mathRandom rnd s;
                    choice = weightedRandomChoice (triggerProbabilities (director s1)) rand
                in if choice = Some ''autonomous'' then
                     (calls, if behavior e \<noteq> AUTONOMOUS
                             then setEyeBehavior now idx AUTONOMOUS s1 else s1)
                   else if choice = Some ''tracking'' then
                     (calls, if behavior e \<noteq> TRACKING
                             then setEyeBehavior now idx TRACKING s1 else s1)
                   else if choice = Some ''scripted'' then
                     (let (call, s2) = triggerDirectorScript rnd idx visibleSets s1
                      in (calls @ (case call of None \<Rightarrow> [] | Some c \<Rightarrow> [c]),
                          s2\<lparr>director := (director s2)\<lparr>lastScriptTime := now\<rparr>\<rparr>))
                   else (calls, s1))))"

fun directorLoop ::
  "(nat \<Rightarrow> real) \<Rightarrow> int \<Rightarrow> nat list \<Rightarrow> nat list \<Rightarrow> (nat \<times> string) list \<times> state \<Rightarrow>
     (nat \<times> string) list \<times> state" where
  "directorLoop rnd now visibleSets [] cs = cs"
| "directorLoop rnd now visibleSets (idx # rest) cs =
     directorLoop rnd now visibleSets rest (directorVisit rnd now visibleSets idx cs)"

text \<open>The remainders of the \<open>executeScript\<close> calls an evaluation started.\<close>

fun runPending :: "(string \<Rightarrow> fetched) \<Rightarrow> int \<Rightarrow> (nat \<times> string) list \<Rightarrow> state \<Rightarrow> state" where
  "runPending fetch now [] s = s"
| "runPending fetch now ((i, sid) # rest) s =
     runPending fetch now rest (snd (executeScript fetch now i sid s))"

definition evaluateDirector ::
  "(nat \<Rightarrow> real) \<Rightarrow> (string \<Rightarrow> fetched) \<Rightarrow> int \<Rightarrow> state \<Rightarrow> state" where
  "evaluateDirector rnd fetch now s =
     (if \<not> enabled (director s) then s
      else
        (let visibleSets = visibleIndices s in
         if visibleSets = [] then scheduleDirectorEvaluation rnd now s
         else if now - lastScriptTime (director s) < scriptCooldown (director s)
         then scheduleDirectorEvaluation rnd now s
         else
           (let (calls, s1) = directorLoop rnd now visibleSets visibleSets ([], s);
                s2 = scheduleDirectorEvaluation rnd now s1
            in runPending fetch now calls s2)))"

section \<open>Timer callbacks\<close>

text \<open>
  \<open>instance.interactionInstances.push(interactionInstance)\<close> in the closure of an
  interaction timer. The instance of the closure may no longer be the current one of
  its eye-set; the push is then on an object nothing refers to.
\<close>

definition pushInteraction :: "nat \<Rightarrow> nat \<Rightarrow> nat option \<Rightarrow> state \<Rightarrow> state" where
  "pushInteraction i iid child s =
     updInstance i
       (\<lambda>inst. if instId inst = iid
               then inst\<lparr>interactionInstances := interactionInstances inst @ [child]\<rparr>
               else inst) s"

definition runCallback ::
  "(nat \<Rightarrow> real) \<Rightarrow> (string \<Rightarrow> fetched) \<Rightarrow> int \<Rightarrow> callback \<Rightarrow> state \<Rightarrow> state" where
  "runCallback rnd fetch now cb s =
     (case cb of
        RunAction i actionName ps \<Rightarrow> executeAction i actionName ps s
      | RunInteraction iid i interaction sid \<Rightarrow>
          (let targetScript = (if truthyStr (i_scriptId interaction)
                               then (case i_scriptId interaction of Some t \<Rightarrow> t | None \<Rightarrow> sid)
                               else sid);
               (child, s1) = executeScript fetch now (targetSet interaction) targetScript s
           in pushInteraction i iid child s1)
      | RunCompletion i \<Rightarrow> completeScript now i s
      | RunDirector \<Rightarrow> evaluateDirector rnd fetch now s)"

text \<open>
  The host fires a pending timer that is due: the timer leaves the pending set and its
  callback runs.
\<close>

definition fireTimer ::
  "(nat \<Rightarrow> real) \<Rightarrow> (string \<Rightarrow> fetched) \<Rightarrow> int \<Rightarrow> handle \<Rightarrow> state \<Rightarrow> state" where
  "fireTimer rnd fetch now h s =
     (case map_of (timers s) h of
        None \<Rightarrow> s
      | Some t \<Rightarrow>
          if due t \<le> real_of_int now then runCallback rnd fetch now (callback t) (clearTimeout h s)
          else s)"

section \<open>Vocabulary of the properties\<close>

text \<open>The cache invariant: every cached definition has a timeline sorted by time.\<close>

definition timelineSorted :: "script \<Rightarrow> bool" where
  "timelineSorted sc =
     (case timeline sc of None \<Rightarrow> False | Some entries \<Rightarrow> sorted (map timeOf entries))"

text \<open>
  The specification's reading of the declared duration of an entry,
  \<open>params.duration ?? 0\<close>: only a missing value is replaced.
\<close>

definition paramsDurationOrDefault :: "actionDef \<Rightarrow> real" where
  "paramsDurationOrDefault a =
     (case params a of
        None \<Rightarrow> 0
      | Some p \<Rightarrow> (case p_duration p of None \<Rightarrow> 0 | Some d \<Rightarrow> d))"


subsection \<open>Example scripts\<close>

definition blinkAt :: "real \<Rightarrow> actionDef" where
  "blinkAt t = \<lparr>time = JNum t, action = Some ''blink'', params = None\<rparr>"

definition negativeTimeScript :: script where
  "negativeTimeScript =
     \<lparr>scriptId = Some ''rewind'', name = Some ''Rewind'', description = None,
      duration = None, interactions = None, timeline = Some [blinkAt (-1)]\<rparr>"

definition emptyTimelineScript :: script where
  "emptyTimelineScript =
     \<lparr>scriptId = Some ''pause'', name = Some ''Pause'', description = None,
      duration = Some 3.5, interactions = None, timeline = Some []\<rparr>"

definition namelessScript :: script where
  "namelessScript =
     \<lparr>scriptId = Some ''anon'', name = None, description = None,
      duration = Some 1, interactions = None, timeline = Some [blinkAt 0]\<rparr>"

text \<open>
  \<open>roll_eyes\<close> of the design document, its two entries swapped and a third one added
  at the time of the first: no \<open>duration\<close> field.
\<close>

definition rollEyesScript :: script where
  "rollEyesScript =
     \<lparr>scriptId = Some ''roll_eyes'', name = Some ''Roll Eyes'',
      description = Some ''Classic eye roll gesture'', duration = None, interactions = None,
      timeline = Some
        [\<lparr>time = JNum 1.8, action = Some ''moveIris'',
          params = Some \<lparr>p_duration = Some 0.3, p_other = [(''x'', JNum 0), (''y'', JNum 0)]\<rparr>\<rparr>,
         \<lparr>time = JNum 0, action = Some ''rollEyes'',
          params = Some \<lparr>p_duration = Some 1.5, p_other = [(''direction'', JStr ''up'')]\<rparr>\<rparr>,
         \<lparr>time = JNum 1.8, action = Some ''blink'', params = None\<rparr>]\<rparr>"

text \<open>Three short scripts; \<open>duet\<close> asks eye-set 1 to join with \<open>wink\<close> after a second.\<close>

definition winkScript :: script where
  "winkScript =
     \<lparr>scriptId = Some ''wink'', name = Some ''Wink'', description = None,
      duration = Some 2, interactions = None, timeline = Some [blinkAt 0, blinkAt 1.5]\<rparr>"

definition stareScript :: script where
  "stareScript =
     \<lparr>scriptId = Some ''stare'', name = Some ''Stare'', description = None,
      duration = Some 10, interactions = None, timeline = Some [blinkAt 0, blinkAt 8]\<rparr>"

definition duetScript :: script where
  "duetScript =
     \<lparr>scriptId = Some ''duet'', name = Some ''Duet'', description = None,
      duration = Some 6,
      interactions = Some [\<lparr>targetSet = 1, i_startTime = 1, i_scriptId = Some ''wink''\<rparr>],
      timeline = Some [blinkAt 0, blinkAt 5]\<rparr>"

text \<open>The script directory of the examples: one document per identifier.\<close>

definition scriptFiles :: "(string \<times> script) list" where
  "scriptFiles =
     [(''roll_eyes'', rollEyesScript), (''rewind'', negativeTimeScript),
      (''pause'', emptyTimelineScript), (''anon'', namelessScript),
      (''wink'', winkScript), (''stare'', stareScript), (''duet'', duetScript)]"

definition scriptDirectory :: "string \<Rightarrow> fetched" where
  "scriptDirectory sid =
     (case map_of scriptFiles sid of None \<Rightarrow> NotOk | Some sc \<Rightarrow> Json sc)"

subsection \<open>The specification's weighted choice\<close>

text \<open>
  The mass accumulated up to and including entry \<open>i\<close> of a probability table, summed
  from the left as the loop does, and the first position whose cumulative mass exceeds
  the draw.
\<close>

definition cumulativeMass :: "(string \<times> 'a::{zero,plus}) list \<Rightarrow> nat \<Rightarrow> 'a" where
  "cumulativeMass weights i = foldl (+) 0 (map snd (take (Suc i) weights))"

definition firstExceeding :: "(string \<times> 'a::{zero,plus,ord}) list \<Rightarrow> 'a \<Rightarrow> nat option" where
  "firstExceeding weights r =
     find (\<lambda>i. r < cumulativeMass weights i) [0..<length weights]"

subsection \<open>Example states\<close>

definition idleEyeSet :: eyeSet where
  "idleEyeSet =
     \<lparr>visible = True, behavior = AUTONOMOUS, currentScript = None, lastBehaviorChange = 0,
      animationsRunning = True, trackingRunning = False\<rparr>"

definition hiddenEyeSet :: eyeSet where
  "hiddenEyeSet = idleEyeSet\<lparr>visible := False, animationsRunning := False\<rparr>"

text \<open>The action registry of the design document.\<close>

definition designRegistry :: "(string \<times> string) list" where
  "designRegistry =
     [(''blink'', ''actionBlink''), (''moveIris'', ''actionMoveIris''),
      (''setScale'', ''actionSetScale''), (''setGap'', ''actionSetGap''),
      (''setPosition'', ''actionSetPosition''), (''playSound'', ''actionPlaySound''),
      (''crossEyes'', ''actionCrossEyes''), (''uncrossEyes'', ''actionUncrossEyes''),
      (''rollEyes'', ''actionRollEyes''), (''widen'', ''actionWiden''),
      (''squint'', ''actionSquint''), (''lookAt'', ''actionLookAt''),
      (''dart'', ''actionDart''), (''shake'', ''actionShake''),
      (''startDripping'', ''actionStartDripping''), (''stopDripping'', ''actionStopDripping''),
      (''setColor'', ''actionSetColor''), (''fadeColor'', ''actionFadeColor'')]"

text \<open>The probability table of the \<open>active\<close> mode, and a table of mass one half.\<close>

definition activeProbabilities :: "(string \<times> real) list" where
  "activeProbabilities = [(''autonomous'', 0.5), (''tracking'', 0.2), (''scripted'', 0.3)]"

definition halfTable :: "(string \<times> real) list" where
  "halfTable = [(''a'', 0.25), (''b'', 0.25)]"

text \<open>The director in its \<open>active\<close> mode, enabled.\<close>

definition activeDirector :: directorState where
  "activeDirector =
     \<lparr>enabled = True, mode = ''active'', lastScriptTime = 0, scriptCooldown = 5000,
      evaluationInterval = 8000, evaluationTimeoutId = None,
      triggerProbabilities = activeProbabilities,
      interactionChance = 0.3\<rparr>"

definition designConfig :: directorConfig where
  "designConfig =
     \<lparr>scriptWeights =
        [(''surprise'', 1.0), (''cross_eyes'', 0.8), (''roll_eyes'', 0.9), (''sleepy'', 0.6),
         (''angry'', 0.7), (''curious'', 0.9), (''scared'', 0.7), (''confused'', 0.8),
         (''sync_blink'', 1.2), (''wave'', 1.0), (''conversation'', 1.5), (''dance'', 1.2)],
      multipleEyesVisible = [''conversation'', ''sync_blink'', ''wave'', ''dance''],
      singleEyeVisible =
        [''surprise'', ''roll_eyes'', ''sleepy'', ''angry'', ''curious'', ''scared'']\<rparr>"

text \<open>Three eye-sets, the third one hidden; nothing loaded, nothing scheduled.\<close>

definition startState :: state where
  "startState =
     \<lparr>eyeSets = [Some idleEyeSet, Some idleEyeSet, Some hiddenEyeSet],
      scriptInstances = [], loadedScripts = [], defaultScripts = [],
      actionRegistry = designRegistry, timers = [], nextHandle = 0, nextInstId = 0,
      director = activeDirector, config = designConfig, randomCalls = 0, events = []\<rparr>"

definition noParams :: params where
  "noParams = \<lparr>p_duration = None, p_other = []\<rparr>"

subsection \<open>The scheduling of a script, as one loop\<close>

text \<open>
  The three scheduling steps of \<open>executeScript\<close> each create a timer and push its
  handle on the instance. \<open>scriptJobs\<close> lists the closures and delays they schedule,
  in order; \<open>scheduleEach\<close> is the common loop, \<open>newTimers\<close> the timers it creates
  from a first handle on, and \<open>registered\<close> the state in which the scheduling starts.
\<close>

fun scheduleEach :: "int \<Rightarrow> nat \<Rightarrow> nat \<Rightarrow> (callback \<times> real) list \<Rightarrow> state \<Rightarrow> state" where
  "scheduleEach now i iid [] s = s"
| "scheduleEach now i iid (job # rest) s =
     (let (h, s1) = setTimeout (fst job) (snd job) now (Some iid) s
      in scheduleEach now i iid rest (pushScheduled i h s1))"

fun newTimers :: "int \<Rightarrow> nat \<Rightarrow> handle \<Rightarrow> (callback \<times> real) list \<Rightarrow> (handle \<times> timer) list" where
  "newTimers now iid h [] = []"
| "newTimers now iid h (job # rest) =
     (h, \<lparr>due = real_of_int now + snd job, owner = Some iid, callback = fst job\<rparr>)
       # newTimers now iid (Suc h) rest"

definition scriptJobs :: "nat \<Rightarrow> nat \<Rightarrow> string \<Rightarrow> script \<Rightarrow> actionDef list \<Rightarrow> (callback \<times> real) list" where
  "scriptJobs i iid sid sc entries =
     map (\<lambda>a. (RunAction i (actionKey a) (paramsOrEmpty a), timeOf a * 1000)) entries @
     (case interactions sc of
        None \<Rightarrow> []
      | Some l \<Rightarrow> map (\<lambda>x. (RunInteraction iid i x sid, i_startTime x * 1000)) l) @
     [(RunCompletion i, durationMs sc)]"

definition registered :: "int \<Rightarrow> nat \<Rightarrow> script \<Rightarrow> state \<Rightarrow> eyeSet \<Rightarrow> state" where
  "registered now i sc s e =
     s\<lparr>eyeSets := (eyeSets s)[i := Some (e\<lparr>animationsRunning := False, behavior := SCRIPTED,
            lastBehaviorChange := now,
            currentScript := Some \<lparr>instId = nextInstId s, scriptObject = sc, setIndex = i,
              startTime = now, scheduledActions = [], interactionInstances = [],
              isRunning = True, onComplete = None\<rparr>\<rparr>)],
       nextInstId := Suc (nextInstId s),
       scriptInstances := mapSet i (nextInstId s) (scriptInstances s)\<rparr>"

subsection \<open>Timers and their instances\<close>

text \<open>
  The pending timers of a state, each with its handle, the instance that created it and
  its closure; and the identity of the instance running on an eye-set.
\<close>

definition pending :: "state \<Rightarrow> (handle \<times> nat option \<times> callback) list" where
  "pending s = map (\<lambda>ht. (fst ht, owner (snd ht), callback (snd ht))) (timers s)"

definition running :: "state \<Rightarrow> nat \<Rightarrow> nat option" where
  "running s i =
     (case eyeSetAt s i of
        None \<Rightarrow> None
      | Some e \<Rightarrow> map_option instId (currentScript e))"

text \<open>The pending timers that an instance created.\<close>

definition ownedBy :: "nat \<Rightarrow> state \<Rightarrow> (handle \<times> timer) list" where
  "ownedBy iid s = filter (\<lambda>ht. owner (snd ht) = Some iid) (timers s)"

text \<open>
  An instance tracks its timers when the handle of every pending timer it created is
  in its \<open>scheduledActions\<close>.
\<close>

definition tracksOwnTimers :: "state \<Rightarrow> ScriptInstance \<Rightarrow> bool" where
  "tracksOwnTimers s inst =
     list_all (\<lambda>ht. owner (snd ht) = Some (instId inst) \<longrightarrow>
                      fst ht \<in> set (scheduledActions inst)) (timers s)"

subsection \<open>Example runs\<close>

text \<open>A random source that always draws \<open>0.9\<close>.\<close>

definition steadyRandom :: "nat \<Rightarrow> real" where
  "steadyRandom n = 0.9"

text \<open>
  \<open>wink\<close> is started on eye-set 0 at time 0 and its first action fires; at time 1000
  \<open>stare\<close> is started on the same eye-set.
\<close>

definition winkRunning :: state where
  "winkRunning =
     fireTimer steadyRandom scriptDirectory 0 0
       (snd (executeScript scriptDirectory 0 0 ''wink'' startState))"

definition stareStarted :: state where
  "stareStarted = snd (executeScript scriptDirectory 1000 0 ''stare'' winkRunning)"

text \<open>
  \<open>duet\<close> is started on eye-set 0 at time 0; at time 1000 its interaction timer
  (handle 2) fires and eye-set 1 joins; at time 1200 the script of eye-set 0 is stopped.
\<close>

definition duetStarted :: state where
  "duetStarted = snd (executeScript scriptDirectory 0 0 ''duet'' startState)"

definition duetJoined :: state where
  "duetJoined = fireTimer steadyRandom scriptDirectory 1000 2 duetStarted"

definition duetStopped :: state where
  "duetStopped = stopScript 1200 0 duetJoined"

text \<open>The instance of \<open>duet\<close> and its eye-set once eye-set 1 has joined.\<close>

definition duetInstance :: ScriptInstance where
  "duetInstance =
     \<lparr>instId = 0, scriptObject = duetScript, setIndex = 0, startTime = 0,
      scheduledActions = [0, 1, 2, 3], interactionInstances = [Some 1], isRunning = True,
      onComplete = None\<rparr>"

definition duetEyeSet :: eyeSet where
  "duetEyeSet =
     \<lparr>visible = True, behavior = SCRIPTED, currentScript = Some duetInstance,
      lastBehaviorChange = 0, animationsRunning = False, trackingRunning = False\<rparr>"

text \<open>The same state after some caller has set \<open>onComplete\<close> of the running instance.\<close>

definition duetWatched :: state where
  "duetWatched = updInstance 0 (\<lambda>inst. inst\<lparr>onComplete := Some 7\<rparr>) duetJoined"


subsection \<open>The states of the example runs, written out\<close>

definition startedInstance :: "nat \<Rightarrow> script \<Rightarrow> nat \<Rightarrow> int \<Rightarrow> handle list \<Rightarrow> ScriptInstance" where
  "startedInstance iid sc i t hs =
     \<lparr>instId = iid, scriptObject = sc, setIndex = i, startTime = t, scheduledActions = hs,
      interactionInstances = [], isRunning = True, onComplete = None\<rparr>"

definition scriptedEyeSet :: "ScriptInstance \<Rightarrow> int \<Rightarrow> eyeSet" where
  "scriptedEyeSet inst t =
     \<lparr>visible = True, behavior = SCRIPTED, currentScript = Some inst, lastBehaviorChange = t,
      animationsRunning = False, trackingRunning = False\<rparr>"

definition blinkTimer :: "handle \<Rightarrow> nat \<Rightarrow> nat \<Rightarrow> real \<Rightarrow> handle \<times> timer" where
  "blinkTimer h iid i d =
     (h, \<lparr>due = d, owner = Some iid, callback = RunAction i ''blink'' noParams\<rparr>)"

definition completionTimer :: "handle \<Rightarrow> nat \<Rightarrow> nat \<Rightarrow> real \<Rightarrow> handle \<times> timer" where
  "completionTimer h iid i d = (h, \<lparr>due = d, owner = Some iid, callback = RunCompletion i\<rparr>)"

definition winkStartedState :: state where
  "winkStartedState =
     startState\<lparr>eyeSets := [Some (scriptedEyeSet (startedInstance 0 winkScript 0 0 [0, 1, 2]) 0),
                              Some idleEyeSet, Some hiddenEyeSet],
       scriptInstances := [(0, 0)], loadedScripts := [(''wink'', winkScript)],
       timers := [blinkTimer 0 0 0 0, blinkTimer 1 0 0 1500, completionTimer 2 0 0 2000],
       nextHandle := 3, nextInstId := 1\<rparr>"

definition winkRunningState :: state where
  "winkRunningState =
     winkStartedState\<lparr>timers := [blinkTimer 1 0 0 1500, completionTimer 2 0 0 2000],
       events := [ActionCalled ''actionBlink'' 0 noParams]\<rparr>"

definition stareStartedState :: state where
  "stareStartedState =
     winkRunningState\<lparr>eyeSets :=
         [Some (scriptedEyeSet (startedInstance 1 stareScript 0 1000 [3, 4, 5]) 1000),
          Some idleEyeSet, Some hiddenEyeSet],
       scriptInstances := [(0, 1)],
       loadedScripts := [(''wink'', winkScript), (''stare'', stareScript)],
       timers := [blinkTimer 1 0 0 1500, completionTimer 2 0 0 2000,
                  blinkTimer 3 1 0 1000, blinkTimer 4 1 0 9000, completionTimer 5 1 0 11000],
       nextHandle := 6, nextInstId := 2\<rparr>"

definition duetInteraction :: interaction where
  "duetInteraction = \<lparr>targetSet = 1, i_startTime = 1, i_scriptId = Some ''wink''\<rparr>"

definition duetStartedState :: state where
  "duetStartedState =
     startState\<lparr>eyeSets :=
         [Some (scriptedEyeSet (startedInstance 0 duetScript 0 0 [0, 1, 2, 3]) 0),
          Some idleEyeSet, Some hiddenEyeSet],
       scriptInstances := [(0, 0)], loadedScripts := [(''duet'', duetScript)],
       timers := [blinkTimer 0 0 0 0, blinkTimer 1 0 0 5000,
                  (2, \<lparr>due = 1000, owner = Some 0,
                       callback = RunInteraction 0 0 duetInteraction ''duet''\<rparr>),
                  completionTimer 3 0 0 6000],
       nextHandle := 4, nextInstId := 1\<rparr>"

definition duetJoinedState :: state where
  "duetJoinedState =
     duetStartedState\<lparr>eyeSets :=
         [Some duetEyeSet,
          Some (scriptedEyeSet (startedInstance 1 winkScript 1 1000 [4, 5, 6]) 1000),
          Some hiddenEyeSet],
       scriptInstances := [(0, 0), (1, 1)],
       loadedScripts := [(''duet'', duetScript), (''wink'', winkScript)],
       timers := [blinkTimer 0 0 0 0, blinkTimer 1 0 0 5000, completionTimer 3 0 0 6000,
                  blinkTimer 4 1 1 1000, blinkTimer 5 1 1 2500, completionTimer 6 1 1 3000],
       nextHandle := 7, nextInstId := 2\<rparr>"

definition duetStoppedState :: state where
  "duetStoppedState =
     duetJoinedState\<lparr>eyeSets :=
         [Some (idleEyeSet\<lparr>lastBehaviorChange := 1200\<rparr>),
          Some (scriptedEyeSet (startedInstance 1 winkScript 1 1000 [4, 5, 6]) 1000),
          Some hiddenEyeSet],
       scriptInstances := [(1, 1)],
       timers := [blinkTimer 4 1 1 1000, blinkTimer 5 1 1 2500, completionTimer 6 1 1 3000]\<rparr>"


text \<open>
  The run of \<open>duet\<close> between the firing of its interaction timer and the moment
  eye-set 1 has joined: the timer has left the pending set, then \<open>wink\<close> is started
  on eye-set 1.
\<close>

definition duetClearedState :: state where
  "duetClearedState =
     duetStartedState\<lparr>timers :=
       [blinkTimer 0 0 0 0, blinkTimer 1 0 0 5000, completionTimer 3 0 0 6000]\<rparr>"

definition duetChildState :: state where
  "duetChildState =
     duetJoinedState\<lparr>eyeSets :=
       [Some (scriptedEyeSet (startedInstance 0 duetScript 0 0 [0, 1, 2, 3]) 0),
        Some (scriptedEyeSet (startedInstance 1 winkScript 1 1000 [4, 5, 6]) 1000),
        Some hiddenEyeSet]\<rparr>"

text \<open>The running instance of \<open>duetWatched\<close> and its eye-set.\<close>

definition watchedInstance :: ScriptInstance where
  "watchedInstance = duetInstance\<lparr>onComplete := Some 7\<rparr>"

definition watchedEyeSet :: eyeSet where
  "watchedEyeSet = duetEyeSet\<lparr>currentScript := Some watchedInstance\<rparr>"

subsection \<open>Which timers belong to which instance\<close>

text \<open>
  What \<open>tracksOwnTimers\<close> reads of an instance, the instances that are current on
  some eye-set, and the invariant of the engine: the owner of every pending timer is an
  instance created so far, and every current instance was created so far and tracks its
  timers.
\<close>

definition instKey :: "ScriptInstance \<Rightarrow> nat \<times> handle list" where
  "instKey inst = (instId inst, scheduledActions inst)"

fun instOf :: "eyeSet option \<Rightarrow> ScriptInstance list" where
  "instOf None = []"
| "instOf (Some e) = (case currentScript e of None \<Rightarrow> [] | Some inst \<Rightarrow> [inst])"

definition curInsts :: "state \<Rightarrow> ScriptInstance list" where
  "curInsts s = concat (map instOf (eyeSets s))"

definition ownersBelow :: "state \<Rightarrow> bool" where
  "ownersBelow s =
     list_all (\<lambda>ht. case owner (snd ht) of None \<Rightarrow> True | Some k \<Rightarrow> k < nextInstId s)
       (timers s)"

definition wellTracked :: "state \<Rightarrow> bool" where
  "wellTracked s =
     (ownersBelow s \<and>
      list_all (\<lambda>inst. instId inst < nextInstId s \<and> tracksOwnTimers s inst) (curInsts s))"

text \<open>
  A later state extends an earlier one when no instance identity is reused and every
  pending timer either was pending before or belongs to no instance or to one created
  in between.
\<close>

definition extends :: "state \<Rightarrow> state \<Rightarrow> bool" where
  "extends s s' =
     (nextInstId s \<le> nextInstId s' \<and>
      list_all (\<lambda>ht. ht \<in> set (timers s) \<or>
                  (case owner (snd ht) of
                     None \<Rightarrow> True
                   | Some k \<Rightarrow> nextInstId s \<le> k \<and> k < nextInstId s'))
        (timers s'))"

definition advances :: "state \<Rightarrow> state \<Rightarrow> bool" where
  "advances s s' = (extends s s' \<and> (wellTracked s \<longrightarrow> wellTracked s'))"

text \<open>The operations of the engine, and a run of them at given times.\<close>

datatype command =
    ExecuteScript nat string
  | StopScript nat
  | SetEyeBehavior nat BehaviorType
  | CycleBehavior nat
  | FireTimer handle
  | EvaluateDirector

fun perform ::
  "(nat \<Rightarrow> real) \<Rightarrow> (string \<Rightarrow> fetched) \<Rightarrow> int \<Rightarrow> command \<Rightarrow> state \<Rightarrow> state" where
  "perform rnd fetch now (ExecuteScript i sid) s = snd (executeScript fetch now i sid s)"
| "perform rnd fetch now (StopScript i) s = stopScript now i s"
| "perform rnd fetch now (SetEyeBehavior i b) s = setEyeBehavior now i b s"
| "perform rnd fetch now (CycleBehavior i) s = cycleBehavior fetch now i s"
| "perform rnd fetch now (FireTimer h) s = fireTimer rnd fetch now h s"
| "perform rnd fetch now EvaluateDirector s = evaluateDirector rnd fetch now s"

fun run ::
  "(nat \<Rightarrow> real) \<Rightarrow> (string \<Rightarrow> fetched) \<Rightarrow> (int \<times> command) list \<Rightarrow> state \<Rightarrow> state" where
  "run rnd fetch [] s = s"
| "run rnd fetch ((now, c) # rest) s = run rnd fetch rest (perform rnd fetch now c s)"

subsection \<open>The script the director selects\<close>






section \<open>The script store\<close>

subsection \<open>Sorting\<close>

lemma set_insertBy: "set (insertBy cmp x xs) = insert x (set xs)"
  by (induction xs) auto

lemma mset_insertBy: "mset (insertBy cmp x xs) = add_mset x (mset xs)"
  by (induction xs) auto

lemma mset_arraySort: "mset (arraySort cmp xs) = mset xs"
  by (induction xs) (auto simp: mset_insertBy)

lemma set_arraySort: "set (arraySort cmp xs) = set xs"
  by (induction xs) (auto simp: set_insertBy)

lemma sorted_insertBy:
  "sorted (map timeOf xs) \<Longrightarrow> sorted (map timeOf (insertBy byTime x xs))"
  by (induction xs) (auto simp: set_insertBy byTime_def)

lemma sorted_arraySort: "sorted (map timeOf (arraySort byTime xs))"
  by (induction xs) (auto simp: sorted_insertBy)

text \<open>An entry of another time does not disturb the entries of time \<open>t\<close>.\<close>

lemma filter_insertBy_other:
  "timeOf x \<noteq> t \<Longrightarrow>
   filter (\<lambda>e. timeOf e = t) (insertBy byTime x xs) = filter (\<lambda>e. timeOf e = t) xs"
  by (induction xs) auto

text \<open>An inserted entry lands in front of the entries of its own time.\<close>

lemma filter_insertBy_same:
  "sorted (map timeOf xs) \<Longrightarrow>
   filter (\<lambda>e. timeOf e = timeOf x) (insertBy byTime x xs) =
     x # filter (\<lambda>e. timeOf e = timeOf x) xs"
  by (induction xs) (auto simp: byTime_def)

lemma arraySort_stable:
  "filter (\<lambda>e. timeOf e = t) (arraySort byTime xs) = filter (\<lambda>e. timeOf e = t) xs"
proof (induction xs)
  case Nil
  show ?case by simp
next
  case (Cons x xs)
  show ?case
  proof (cases "timeOf x = t")
    case True
    then show ?thesis
      using filter_insertBy_same [OF sorted_arraySort, of x xs] Cons.IH by simp
  next
    case False
    then show ?thesis
      using filter_insertBy_other [of x t "arraySort byTime xs"] Cons.IH by simp
  qed
qed

subsection \<open>The cache\<close>

lemma map_of_mapSet: "map_of (mapSet k v m) k' = (if k' = k then Some v else map_of m k')"
  by (induction m) auto

lemma list_all_mapSet:
  "list_all P (map snd m) \<Longrightarrow> P v \<Longrightarrow> list_all P (map snd (mapSet k v m))"
  by (induction m) auto

lemma map_of_list_all:
  "list_all P (map snd m) \<Longrightarrow> map_of m k = Some v \<Longrightarrow> P v"
  by (induction m) (auto split: if_splits)

subsection \<open>Loading\<close>

lemma validateTimeline_iff:
  "validateTimeline entries \<longleftrightarrow>
     (\<forall>a\<in>set entries. isNumber (time a) \<and> truthyStr (action a))"
  by (induction entries) auto


lemma withDuration_timeline:
  "withDuration s entries = Inr sc \<Longrightarrow> timeline sc = timeline s"
  by (auto simp: withDuration_def split: if_splits list.splits)

text \<open>What a successful load of an uncached script went through.\<close>

lemma loadScript_miss:
  assumes "map_of cache sid = None"
    and "loadScript fetch cache sid = (Some sc, cache')"
  shows "\<exists>raw input. fetch sid = Json raw \<and> validateScript raw \<and> timeline raw = Some input \<and>
           withDuration (raw\<lparr>timeline := Some (arraySort byTime input)\<rparr>) (arraySort byTime input)
             = Inr sc \<and>
           cache' = mapSet sid sc cache"
  using assms
  by (auto simp: loadScript_def loadScriptTry_def Let_def
      split: fetched.splits if_splits option.splits sum.splits)

text \<open>A failed load leaves the cache as it was.\<close>

lemma loadScript_None_cache:
  "loadScript fetch cache sid = (None, cache') \<Longrightarrow> cache' = cache"
  by (auto simp: loadScript_def split: option.splits sum.splits)

lemma paramsDuration_same: "paramsDurationOrZero a = paramsDurationOrDefault a"
  by (simp add: paramsDurationOrZero_def paramsDurationOrDefault_def split: option.splits)




text \<open>
  C6. A definition that is loaded (not taken from the cache) and has no \<open>duration\<close>
  field is stored with \<open>duration = lastEntry.time + (lastEntry.params.duration ?? 0)\<close>,
  \<open>lastEntry\<close> being the last entry of the sorted timeline.
\<close>

theorem loadScript_computed_duration:
  assumes miss: "map_of cache sid = None"
    and raw: "fetch sid = Json raw"
    and nodur: "duration raw = None"
    and load: "loadScript fetch cache sid = (Some sc, cache')"
  shows "\<exists>entries lastEntry. timeline sc = Some entries \<and> entries \<noteq> [] \<and>
           sorted (map timeOf entries) \<and>
           lastEntry = last entries \<and> time lastEntry = JNum (timeOf lastEntry) \<and>
           duration sc = Some (timeOf lastEntry + paramsDurationOrDefault lastEntry) \<and>
           map_of cache' sid = Some sc"
proof -
  from loadScript_miss [OF miss load] raw obtain input where
    valid: "validateScript raw" and tl: "timeline raw = Some input"
    and wd: "withDuration (raw\<lparr>timeline := Some (arraySort byTime input)\<rparr>)
               (arraySort byTime input) = Inr sc"
    and c: "cache' = mapSet sid sc cache"
    by auto
  let ?entries = "arraySort byTime input"
  from wd nodur have ne: "?entries \<noteq> []"
    by (auto simp: withDuration_def split: list.splits)
  from wd nodur ne have sc: "sc = raw\<lparr>timeline := Some ?entries,
      duration := Some (timeOf (last ?entries) + paramsDurationOrZero (last ?entries))\<rparr>"
    by (auto simp: withDuration_def split: list.splits)
  from valid tl have "validateTimeline input"
    by (simp add: validateScript_def split: if_splits)
  then have nums: "\<forall>a\<in>set input. isNumber (time a)"
    by (simp add: validateTimeline_iff)
  from ne have "last ?entries \<in> set ?entries" by (rule last_in_set)
  then have "last ?entries \<in> set input" by (simp add: set_arraySort)
  with nums have "isNumber (time (last ?entries))" by blast
  then have num: "time (last ?entries) = JNum (timeOf (last ?entries))"
    by (cases "time (last ?entries)") (simp_all add: timeOf_def)
  show ?thesis
    using ne sc c num by (simp add: paramsDuration_same map_of_mapSet sorted_arraySort)
qed

theorem loadScript_computed_duration_witness:
  "\<exists>sc cache'. loadScript scriptDirectory [] ''roll_eyes'' = (Some sc, cache') \<and>
     duration sc = Some 1.8 \<and> map_of cache' ''roll_eyes'' = Some sc"
proof -
  have miss: "map_of ([] :: scriptCache) ''roll_eyes'' = None" by simp
  have raw: "scriptDirectory ''roll_eyes'' = Json rollEyesScript"
    by (simp add: scriptDirectory_def scriptFiles_def)
  have nodur: "duration rollEyesScript = None"
    by (simp add: rollEyesScript_def)
  obtain sc cache' where load: "loadScript scriptDirectory [] ''roll_eyes'' = (Some sc, cache')"
    and tl: "timeline sc = Some
        [\<lparr>time = JNum 0, action = Some ''rollEyes'',
          params = Some \<lparr>p_duration = Some 1.5, p_other = [(''direction'', JStr ''up'')]\<rparr>\<rparr>,
         \<lparr>time = JNum 1.8, action = Some ''moveIris'',
          params = Some \<lparr>p_duration = Some 0.3, p_other = [(''x'', JNum 0), (''y'', JNum 0)]\<rparr>\<rparr>,
         \<lparr>time = JNum 1.8, action = Some ''blink'', params = None\<rparr>]"
    by (simp add: loadScript_def loadScriptTry_def validateScript_def withDuration_def
        scriptDirectory_def scriptFiles_def rollEyesScript_def timeOf_def byTime_def Let_def)
  from loadScript_computed_duration
    [where fetch = scriptDirectory and raw = rollEyesScript, OF miss raw nodur load] tl
  have "duration sc = Some 1.8" "map_of cache' ''roll_eyes'' = Some sc"
    by (auto simp: timeOf_def paramsDurationOrDefault_def)
  with load show ?thesis by blast
qed

text \<open>
  C7. Whatever the order of the entries in the document, a definition returned by
  \<open>loadScript\<close> has its timeline sorted ascending by time, provided the definitions
  already cached are (and then those cached afterwards are too). When the definition
  was loaded rather than found in the cache, its timeline is a rearrangement of the
  document's in which the entries of any one time keep their order.
\<close>

theorem loadScript_timeline_sorted_stable:
  assumes inv: "list_all timelineSorted (map snd cache)"
    and load: "loadScript fetch cache sid = (Some sc, cache')"
  shows "(\<exists>entries. timeline sc = Some entries \<and> sorted (map timeOf entries)) \<and>
         list_all timelineSorted (map snd cache') \<and>
         (map_of cache sid = None \<longrightarrow>
            (\<exists>raw input entries. fetch sid = Json raw \<and> timeline raw = Some input \<and>
               timeline sc = Some entries \<and> map_of cache' sid = Some sc \<and>
               mset entries = mset input \<and>
               (\<forall>t. filter (\<lambda>e. timeOf e = t) entries = filter (\<lambda>e. timeOf e = t) input)))"
proof (cases "map_of cache sid")
  case (Some cached)
  with load have eq: "sc = cached" "cache' = cache"
    by (simp_all add: loadScript_def)
  from inv Some have "timelineSorted cached" by (rule map_of_list_all)
  with eq inv Some show ?thesis
    by (auto simp: timelineSorted_def split: option.splits)
next
  case None
  from loadScript_miss [OF None load] obtain raw input where
    raw: "fetch sid = Json raw" "timeline raw = Some input"
    and wd: "withDuration (raw\<lparr>timeline := Some (arraySort byTime input)\<rparr>)
               (arraySort byTime input) = Inr sc"
    and c: "cache' = mapSet sid sc cache"
    by blast
  from withDuration_timeline [OF wd]
  have tl: "timeline sc = Some (arraySort byTime input)" by simp
  have srt: "timelineSorted sc"
    by (simp add: timelineSorted_def tl sorted_arraySort)
  have inv': "list_all timelineSorted (map snd cache')"
    unfolding c using inv srt by (rule list_all_mapSet)
  have stored: "map_of cache' sid = Some sc"
    by (simp add: c map_of_mapSet)
  show ?thesis
    using raw tl srt inv' stored
    by (auto simp: timelineSorted_def mset_arraySort arraySort_stable)
qed

theorem loadScript_timeline_sorted_stable_witness:
  "\<exists>sc cache'. loadScript scriptDirectory [] ''roll_eyes'' = (Some sc, cache') \<and>
     timeline sc = Some
        [\<lparr>time = JNum 0, action = Some ''rollEyes'',
          params = Some \<lparr>p_duration = Some 1.5, p_other = [(''direction'', JStr ''up'')]\<rparr>\<rparr>,
         \<lparr>time = JNum 1.8, action = Some ''moveIris'',
          params = Some \<lparr>p_duration = Some 0.3, p_other = [(''x'', JNum 0), (''y'', JNum 0)]\<rparr>\<rparr>,
         \<lparr>time = JNum 1.8, action = Some ''blink'', params = None\<rparr>] \<and>
     (\<exists>entries. timeline sc = Some entries \<and> sorted (map timeOf entries)) \<and>
     list_all timelineSorted (map snd cache')"
proof -
  have inv: "list_all timelineSorted (map snd ([] :: scriptCache))" by simp
  obtain sc cache' where load: "loadScript scriptDirectory [] ''roll_eyes'' = (Some sc, cache')"
    and tl: "timeline sc = Some
        [\<lparr>time = JNum 0, action = Some ''rollEyes'',
          params = Some \<lparr>p_duration = Some 1.5, p_other = [(''direction'', JStr ''up'')]\<rparr>\<rparr>,
         \<lparr>time = JNum 1.8, action = Some ''moveIris'',
          params = Some \<lparr>p_duration = Some 0.3, p_other = [(''x'', JNum 0), (''y'', JNum 0)]\<rparr>\<rparr>,
         \<lparr>time = JNum 1.8, action = Some ''blink'', params = None\<rparr>]"
    by (simp add: loadScript_def loadScriptTry_def validateScript_def withDuration_def
        scriptDirectory_def scriptFiles_def rollEyesScript_def timeOf_def byTime_def Let_def)
  from loadScript_timeline_sorted_stable [where fetch = scriptDirectory, OF inv load] load tl
  show ?thesis by blast
qed

section \<open>The weighted choice of the director\<close>

lemma find_map_Suc:
  "find P (map Suc xs) = map_option Suc (find (\<lambda>i. P (Suc i)) xs)"
  by (induction xs) auto

text \<open>
  The loop, started with any value of \<open>cumulative\<close>, returns the key at the first
  position where the mass accumulated from that value exceeds the draw.
\<close>

lemma weightedLoop_find:
  "weightedLoop ws r c =
     map_option (\<lambda>i. fst (ws ! i))
       (find (\<lambda>i. r < foldl (+) c (map snd (take (Suc i) ws))) [0..<length ws])"
proof (induction ws arbitrary: c)
  case Nil
  show ?case by simp
next
  case (Cons kp rest)
  obtain k p where kp: "kp = (k, p)" by (cases kp)
  have upt: "[0..<length (kp # rest)] = 0 # map Suc [0..<length rest]"
    by (simp add: upt_conv_Cons map_Suc_upt del: upt_Suc)
  show ?case
    unfolding upt
    by (simp add: kp Cons.IH find_map_Suc comp_def option.map_comp)
qed

text \<open>
  C8. For every probability table and every draw \<open>r\<close>, \<open>weightedRandomChoice\<close>
  returns the key of the first entry, in insertion order, whose cumulative mass
  strictly exceeds \<open>r\<close>; when no cumulative mass exceeds \<open>r\<close> it returns the first
  key of the table (\<open>undefined\<close> for an empty table). The statement needs neither
  the non-negativity of the masses nor \<open>r\<close> in \<open>[0,1)\<close>, and holds for any
  addition and order on the numbers.
\<close>

theorem weightedRandomChoice_first_exceeding:
  "weightedRandomChoice weights r =
     (case firstExceeding weights r of
        Some i \<Rightarrow> Some (fst (weights ! i))
      | None \<Rightarrow> (case weights of [] \<Rightarrow> None | kv # rest \<Rightarrow> Some (fst kv)))"
  by (simp add: weightedRandomChoice_def firstExceeding_def cumulativeMass_def
      weightedLoop_find split: option.splits)

theorem weightedRandomChoice_first_exceeding_witness:
  "firstExceeding activeProbabilities 0.6 = Some 1 \<and>
   weightedRandomChoice activeProbabilities 0.6 = Some ''tracking'' \<and>
   firstExceeding halfTable 0.75 = None \<and>
   weightedRandomChoice halfTable 0.75 = Some ''a''"
proof -
  have a: "firstExceeding activeProbabilities 0.6 = Some 1"
    by (simp add: firstExceeding_def cumulativeMass_def activeProbabilities_def upt_conv_Cons)
  have b: "firstExceeding halfTable 0.75 = None"
    by (simp add: firstExceeding_def cumulativeMass_def halfTable_def upt_conv_Cons)
  have "weightedRandomChoice activeProbabilities 0.6 = Some (fst (activeProbabilities ! 1))"
    using weightedRandomChoice_first_exceeding [of activeProbabilities "0.6"]
    unfolding a by simp
  then have c: "weightedRandomChoice activeProbabilities 0.6 = Some ''tracking''"
    by (simp add: activeProbabilities_def)
  have "weightedRandomChoice halfTable 0.75 =
      (case halfTable of [] \<Rightarrow> None | kv # rest \<Rightarrow> Some (fst kv))"
    using weightedRandomChoice_first_exceeding [of halfTable "0.75"]
    unfolding b by simp
  then have d: "weightedRandomChoice halfTable 0.75 = Some ''a''"
    by (simp add: halfTable_def)
  from a b c d show ?thesis by simp
qed

section \<open>The execution engine\<close>

subsection \<open>Reading the state after an update of an eye-set\<close>

lemma eyeSetAt_updEyeSet:
  "eyeSetAt (updEyeSet i f s) j =
     (if j = i then map_option f (eyeSetAt s i) else eyeSetAt s j)"
  by (auto simp: eyeSetAt_def updEyeSet_def putEyeSet_def split: option.splits)

lemma updEyeSet_frame:
  "scriptInstances (updEyeSet i f s) = scriptInstances s"
  "loadedScripts (updEyeSet i f s) = loadedScripts s"
  "defaultScripts (updEyeSet i f s) = defaultScripts s"
  "actionRegistry (updEyeSet i f s) = actionRegistry s"
  "timers (updEyeSet i f s) = timers s"
  "nextHandle (updEyeSet i f s) = nextHandle s"
  "nextInstId (updEyeSet i f s) = nextInstId s"
  "director (updEyeSet i f s) = director s"
  "config (updEyeSet i f s) = config s"
  "randomCalls (updEyeSet i f s) = randomCalls s"
  "events (updEyeSet i f s) = events s"
  by (simp_all add: updEyeSet_def putEyeSet_def split: option.splits)

lemma startState_eyeSets:
  "eyeSetAt startState 0 = Some idleEyeSet"
  "eyeSetAt startState 2 = Some hiddenEyeSet"
  "eyeSetAt startState 7 = None"
  by (simp_all add: eyeSetAt_def startState_def)

subsection \<open>Refusals\<close>

lemma executeScript_refuses:
  assumes "eyeSetAt s i = None \<or> (\<exists>e. eyeSetAt s i = Some e \<and> \<not> visible e) \<or>
           fst (loadScript fetch (loadedScripts s) sid) = None"
  shows "executeScript fetch now i sid s = (None, s)"
proof (cases "eyeSetAt s i")
  case None
  then show ?thesis by (simp add: executeScript_def)
next
  case (Some e)
  show ?thesis
  proof (cases "visible e")
    case False
    with Some show ?thesis by (simp add: executeScript_def)
  next
    case True
    with Some assms have "fst (loadScript fetch (loadedScripts s) sid) = None" by auto
    then obtain cache' where l: "loadScript fetch (loadedScripts s) sid = (None, cache')"
      by (cases "loadScript fetch (loadedScripts s) sid") auto
    from loadScript_None_cache [OF l] have "cache' = loadedScripts s" .
    with l Some True show ?thesis by (simp add: executeScript_def)
  qed
qed

text \<open>
  C5. When the eye-set does not exist, when it is not visible, or when the script
  cannot be loaded, \<open>executeScript\<close> returns no instance and leaves the whole state as
  it was: the behavior, \<open>currentScript\<close>, \<open>lastBehaviorChange\<close> and the running
  animations of every eye-set, the timers and the script cache.
\<close>

theorem executeScript_atomic_on_failure:
  assumes "eyeSetAt s i = None \<or> (\<exists>e. eyeSetAt s i = Some e \<and> \<not> visible e) \<or>
           fst (loadScript fetch (loadedScripts s) sid) = None"
  shows "executeScript fetch now i sid s = (None, s)"
  using assms by (rule executeScript_refuses)

theorem executeScript_atomic_on_failure_witness:
  "executeScript scriptDirectory 5 7 ''roll_eyes'' startState = (None, startState) \<and>
   executeScript scriptDirectory 5 2 ''roll_eyes'' startState = (None, startState) \<and>
   executeScript scriptDirectory 5 0 ''missing'' startState = (None, startState) \<and>
   executeScript scriptDirectory 5 0 ''anon'' startState = (None, startState)"
proof -
  have hidden: "\<not> visible hiddenEyeSet"
    by (simp add: hiddenEyeSet_def)
  have missing: "fst (loadScript scriptDirectory (loadedScripts startState) ''missing'') = None"
    by (simp add: loadScript_def loadScriptTry_def scriptDirectory_def scriptFiles_def startState_def)
  have anon: "fst (loadScript scriptDirectory (loadedScripts startState) ''anon'') = None"
    by (simp add: loadScript_def loadScriptTry_def scriptDirectory_def scriptFiles_def startState_def
        validateScript_def namelessScript_def)
  show ?thesis
    using executeScript_atomic_on_failure [of startState 7 scriptDirectory "''roll_eyes''" 5]
      executeScript_atomic_on_failure [of startState 2 scriptDirectory "''roll_eyes''" 5]
      executeScript_atomic_on_failure [of startState 0 scriptDirectory "''missing''" 5]
      executeScript_atomic_on_failure [of startState 0 scriptDirectory "''anon''" 5]
    by (simp add: startState_eyeSets hidden missing anon)
qed

text \<open>
  C10. \<open>executeAction\<close> changes nothing, and so calls no handler, when the eye-set
  does not exist or is not visible, whatever the registry holds for the action name. A
  handler call is recorded only for an eye-set that exists and is visible, and it is
  the call of the registered handler with the eye-set's index and the parameters.
\<close>

theorem executeAction_requires_visible_eyeSet:
  "(eyeSetAt s i = None \<or> (\<exists>e. eyeSetAt s i = Some e \<and> \<not> visible e)
      \<longrightarrow> executeAction i actionName ps s = s) \<and>
   (events (executeAction i actionName ps s) \<noteq> events s
      \<longrightarrow> (\<exists>e f. eyeSetAt s i = Some e \<and> visible e \<and>
                 map_of (actionRegistry s) actionName = Some f \<and>
                 events (executeAction i actionName ps s) = events s @ [ActionCalled f i ps]))"
  by (auto simp: executeAction_def split: option.splits)

theorem executeAction_requires_visible_eyeSet_witness:
  "map_of (actionRegistry startState) ''blink'' = Some ''actionBlink'' \<and>
   executeAction 2 ''blink'' noParams startState = startState \<and>
   executeAction 7 ''blink'' noParams startState = startState \<and>
   events (executeAction 0 ''blink'' noParams startState) =
     [ActionCalled ''actionBlink'' 0 noParams]"
proof -
  have hidden: "\<not> visible hiddenEyeSet"
    by (simp add: hiddenEyeSet_def)
  have reg: "map_of (actionRegistry startState) ''blink'' = Some ''actionBlink''"
    by (simp add: startState_def designRegistry_def)
  have called: "events (executeAction 0 ''blink'' noParams startState) =
      [ActionCalled ''actionBlink'' 0 noParams]"
    by (simp add: executeAction_def startState_eyeSets idleEyeSet_def reg)
      (simp add: startState_def)
  show ?thesis
    using executeAction_requires_visible_eyeSet [of startState 2 "''blink''" noParams]
      executeAction_requires_visible_eyeSet [of startState 7 "''blink''" noParams]
    by (simp add: startState_eyeSets hidden reg called)
qed

section \<open>Completion and behavior changes\<close>


lemma eyeSetAt_cong: "eyeSets s' = eyeSets s \<Longrightarrow> eyeSetAt s' j = eyeSetAt s j"
  by (simp add: eyeSetAt_def)

lemma clearAll_filter:
  "clearAll hs s = s\<lparr>timers := filter (\<lambda>ht. fst ht \<notin> set hs) (timers s)\<rparr>"
proof (induction hs arbitrary: s)
  case Nil
  show ?case by simp
next
  case (Cons h hs)
  have "filter (\<lambda>ht. fst ht \<notin> set hs) (filter (\<lambda>ht. fst ht \<noteq> h) (timers s)) =
        filter (\<lambda>ht. fst ht \<notin> set (h # hs)) (timers s)"
    by (induction "timers s") auto
  then show ?case by (simp add: Cons.IH clearTimeout_def)
qed

lemma updEyeSet_Some:
  "eyeSetAt s i = Some e \<Longrightarrow> updEyeSet i f s = s\<lparr>eyeSets := (eyeSets s)[i := Some (f e)]\<rparr>"
  by (simp add: updEyeSet_def putEyeSet_def)

lemma eyeSetAt_put:
  "eyeSetAt s i = Some e \<Longrightarrow>
   eyeSetAt (s\<lparr>eyeSets := (eyeSets s)[i := Some e']\<rparr>) j = (if j = i then Some e' else eyeSetAt s j)"
  by (auto simp: eyeSetAt_def split: if_splits)

lemma completeScript_result:
  assumes "eyeSetAt s i = Some e" and "currentScript e = Some inst"
  shows "completeScript now i s =
     s\<lparr>eyeSets := (eyeSets s)[i := Some (e\<lparr>currentScript := None, behavior := AUTONOMOUS,
                                           lastBehaviorChange := now, animationsRunning := True\<rparr>)],
       timers := filter (\<lambda>ht. fst ht \<notin> set (scheduledActions inst)) (timers s),
       scriptInstances := mapDelete i (scriptInstances s),
       events := events s @ (case onComplete inst of None \<Rightarrow> [] | Some cb \<Rightarrow> [OnCompleteCalled cb])\<rparr>"
proof -
  let ?s1 = "clearAll (scheduledActions inst) s"
  let ?s2 = "callOnComplete (inst\<lparr>isRunning := False, scheduledActions := []\<rparr>) ?s1"
  have e2: "eyeSetAt ?s2 i = Some e"
    using assms(1)
    by (auto simp: clearAll_filter callOnComplete_def eyeSetAt_def split: option.splits if_splits)
  show ?thesis
    using assms e2
    by (cases "onComplete inst")
       (auto simp: completeScript_def Let_def startEyeSetAnimations_def updEyeSet_Some eyeSetAt_put
        clearAll_filter callOnComplete_def eyeSetAt_def split: if_splits)
qed


lemma setEyeBehavior_unscripted:
  assumes "eyeSetAt s i = Some e" and "behavior e \<noteq> SCRIPTED"
  shows "\<exists>e'. eyeSetAt (setEyeBehavior now i b s) i = Some e' \<and> behavior e' = b \<and>
           lastBehaviorChange e' = now \<and> currentScript e' = currentScript e \<and>
           visible e' = visible e" (is ?A)
    and "defaultScripts (setEyeBehavior now i b s) = defaultScripts s" (is ?B)
proof -
  define s1 where
    "s1 = (if behavior e = TRACKING then stopEyeSetTracking i s else stopEyeSetAnimations i s)"
  have "\<exists>e1. eyeSetAt s1 i = Some e1 \<and> behavior e1 = behavior e \<and>
          currentScript e1 = currentScript e \<and> visible e1 = visible e"
    using assms(1)
    by (simp add: s1_def stopEyeSetTracking_def stopEyeSetAnimations_def eyeSetAt_updEyeSet)
  then obtain e1 where e1: "eyeSetAt s1 i = Some e1" "behavior e1 = behavior e"
    "currentScript e1 = currentScript e" "visible e1 = visible e"
    by blast
  have d1: "defaultScripts s1 = defaultScripts s"
    by (simp add: s1_def stopEyeSetTracking_def stopEyeSetAnimations_def updEyeSet_frame)
  have unfold: "setEyeBehavior now i b s =
      debouncedSaveState
        (let s2 = updEyeSet i (\<lambda>e. e\<lparr>behavior := b, lastBehaviorChange := now\<rparr>) s1
         in case b of AUTONOMOUS \<Rightarrow> startEyeSetAnimations i s2
            | TRACKING \<Rightarrow> startEyeSetTracking i s2 | SCRIPTED \<Rightarrow> s2)"
    using assms by (simp add: setEyeBehavior_def Let_def s1_def)
  have save: "eyeSetAt (debouncedSaveState s') j = eyeSetAt s' j" for s' j
    by (simp add: debouncedSaveState_def eyeSetAt_def)
  show ?A
    unfolding unfold using e1
    by (cases b)
       (simp_all add: save Let_def startEyeSetAnimations_def
         startEyeSetTracking_def eyeSetAt_updEyeSet)
  show ?B
    unfolding unfold using d1
    by (cases b)
       (simp_all add: debouncedSaveState_def Let_def startEyeSetAnimations_def
         startEyeSetTracking_def updEyeSet_frame)
qed

lemma cycleBehavior_from_autonomous:
  assumes "eyeSetAt s i = Some e" and "behavior e = AUTONOMOUS"
  shows "cycleBehavior fetch now i s = setEyeBehavior now i TRACKING s"
  using assms by (simp add: cycleBehavior_def behaviors_def indexOf_def Let_def)

lemma cycleBehavior_from_tracking:
  assumes "eyeSetAt s i = Some e" and "behavior e = TRACKING"
    and "\<not> truthyStr (map_of (defaultScripts s) i)"
  shows "cycleBehavior fetch now i s = setEyeBehavior now i AUTONOMOUS s"
  using assms
  by (auto simp: cycleBehavior_def behaviors_def indexOf_def Let_def split: option.splits)

lemma cycleBehavior_skips_scripted:
  assumes e: "eyeSetAt s i = Some e" and aut: "behavior e = AUTONOMOUS"
    and nodef: "\<not> truthyStr (map_of (defaultScripts s) i)"
  shows "\<exists>e2 e3.
      eyeSetAt (cycleBehavior fetch t2 i (cycleBehavior fetch t1 i s)) i = Some e2 \<and>
      behavior e2 = AUTONOMOUS \<and>
      eyeSetAt (cycleBehavior fetch t3 i (cycleBehavior fetch t2 i (cycleBehavior fetch t1 i s))) i
        = Some e3 \<and>
      behavior e3 = TRACKING"
proof -
  let ?s1 = "cycleBehavior fetch t1 i s"
  let ?s2 = "cycleBehavior fetch t2 i ?s1"
  let ?s3 = "cycleBehavior fetch t3 i ?s2"
  have s1: "?s1 = setEyeBehavior t1 i TRACKING s"
    using e aut by (rule cycleBehavior_from_autonomous)
  from aut have ns: "behavior e \<noteq> SCRIPTED" by simp
  from setEyeBehavior_unscripted [OF e ns, of t1 TRACKING] s1
  obtain e1 where e1: "eyeSetAt ?s1 i = Some e1" "behavior e1 = TRACKING"
    and d1: "defaultScripts ?s1 = defaultScripts s"
    by auto
  from nodef d1 have nodef1: "\<not> truthyStr (map_of (defaultScripts ?s1) i)" by simp
  have s2: "?s2 = setEyeBehavior t2 i AUTONOMOUS ?s1"
    using e1 nodef1 by (rule cycleBehavior_from_tracking)
  from e1 have ns1: "behavior e1 \<noteq> SCRIPTED" by simp
  from setEyeBehavior_unscripted [OF e1(1) ns1, of t2 AUTONOMOUS] s2
  obtain e2 where e2: "eyeSetAt ?s2 i = Some e2" "behavior e2 = AUTONOMOUS"
    by auto
  have s3: "?s3 = setEyeBehavior t3 i TRACKING ?s2"
    using e2 by (rule cycleBehavior_from_autonomous)
  from e2 have ns2: "behavior e2 \<noteq> SCRIPTED" by simp
  from setEyeBehavior_unscripted [OF e2(1) ns2, of t3 TRACKING] s3
  obtain e3 where e3: "eyeSetAt ?s3 i = Some e3" "behavior e3 = TRACKING"
    by auto
  from e2 e3 show ?thesis by blast
qed


text \<open>
  C2, as the code has it. For an eye-set that is autonomous and has no default script,
  two applications of \<open>cycleBehavior\<close> lead back to autonomous (autonomous, tracking,
  then the skipped scripted leg falls back to autonomous), and so the third
  application leaves the eye-set tracking.
\<close>

theorem cycleBehavior_period_two:
  assumes "eyeSetAt s i = Some e" and "behavior e = AUTONOMOUS"
    and "\<not> truthyStr (map_of (defaultScripts s) i)"
  shows "map_option behavior
           (eyeSetAt (cycleBehavior fetch t2 i (cycleBehavior fetch t1 i s)) i) = Some AUTONOMOUS \<and>
         map_option behavior
           (eyeSetAt (cycleBehavior fetch t3 i (cycleBehavior fetch t2 i (cycleBehavior fetch t1 i s))) i)
           = Some TRACKING"
  using cycleBehavior_skips_scripted [OF assms, of fetch t2 t1 t3] by auto

theorem cycleBehavior_period_two_witness:
  "map_option behavior
     (eyeSetAt (cycleBehavior scriptDirectory 20 1 (cycleBehavior scriptDirectory 10 1 startState)) 1)
     = Some AUTONOMOUS \<and>
   map_option behavior
     (eyeSetAt (cycleBehavior scriptDirectory 30 1
        (cycleBehavior scriptDirectory 20 1 (cycleBehavior scriptDirectory 10 1 startState))) 1)
     = Some TRACKING"
proof -
  have e: "eyeSetAt startState 1 = Some idleEyeSet"
    by (simp add: eyeSetAt_def startState_def)
  have aut: "behavior idleEyeSet = AUTONOMOUS"
    by (simp add: idleEyeSet_def)
  have nodef: "\<not> truthyStr (map_of (defaultScripts startState) 1)"
    by (simp add: startState_def)
  from cycleBehavior_period_two [OF e aut nodef] show ?thesis .
qed

text \<open>
  C2 as stated fails: eye-set 0 of the example state is autonomous and has no default
  script, and after three applications of \<open>cycleBehavior\<close> it is tracking.
\<close>

theorem cycleBehavior_thrice_not_autonomous:
  "map_option behavior (eyeSetAt startState 0) = Some AUTONOMOUS \<and>
   map_of (defaultScripts startState) 0 = None \<and>
   map_option behavior
     (eyeSetAt (cycleBehavior scriptDirectory 30 0
        (cycleBehavior scriptDirectory 20 0 (cycleBehavior scriptDirectory 10 0 startState))) 0)
     \<noteq> Some AUTONOMOUS"
proof -
  have e: "eyeSetAt startState 0 = Some idleEyeSet"
    by (simp add: eyeSetAt_def startState_def)
  have aut: "behavior idleEyeSet = AUTONOMOUS"
    by (simp add: idleEyeSet_def)
  have nodef: "\<not> truthyStr (map_of (defaultScripts startState) 0)"
    by (simp add: startState_def)
  from cycleBehavior_skips_scripted [OF e aut nodef, of scriptDirectory 20 10 30]
  have "map_option behavior
     (eyeSetAt (cycleBehavior scriptDirectory 30 0
        (cycleBehavior scriptDirectory 20 0 (cycleBehavior scriptDirectory 10 0 startState))) 0)
     = Some TRACKING"
    by auto
  moreover have "map_of (defaultScripts startState) 0 = None"
    by (simp add: startState_def)
  ultimately show ?thesis
    by (auto simp: e aut)
qed

section \<open>What a started script leaves behind\<close>

lemma scheduleEach_append:
  "scheduleEach now i iid (xs @ ys) s = scheduleEach now i iid ys (scheduleEach now i iid xs s)"
  by (induction xs arbitrary: s) (auto simp: Let_def split: prod.splits)

lemma scheduleTimeline_each:
  "scheduleTimeline now i iid entries s =
     scheduleEach now i iid
       (map (\<lambda>a. (RunAction i (actionKey a) (paramsOrEmpty a), timeOf a * 1000)) entries) s"
  by (induction entries arbitrary: s) (auto simp: Let_def split: prod.splits)

lemma scheduleInteractions_each:
  "scheduleInteractions now i iid sid l s =
     scheduleEach now i iid (map (\<lambda>x. (RunInteraction iid i x sid, i_startTime x * 1000)) l) s"
  by (induction l arbitrary: s) (auto simp: Let_def split: prod.splits)

lemma eyeSetAt_Some_length: "eyeSetAt s i = Some e \<Longrightarrow> i < length (eyeSets s)"
  by (simp add: eyeSetAt_def split: if_splits)

lemma scheduleEach_result:
  assumes "eyeSetAt s i = Some e" and "currentScript e = Some inst"
  shows "scheduleEach now i iid jobs s =
     s\<lparr>timers := timers s @ newTimers now iid (nextHandle s) jobs,
       nextHandle := nextHandle s + length jobs,
       eyeSets := (eyeSets s)[i := Some (e\<lparr>currentScript := Some (inst\<lparr>scheduledActions :=
           scheduledActions inst @ [nextHandle s..<nextHandle s + length jobs]\<rparr>)\<rparr>)]\<rparr>"
  using assms
proof (induction jobs arbitrary: s e inst)
  case Nil
  then have "(eyeSets s)[i := Some e] = eyeSets s"
    by (auto simp: eyeSetAt_def list_update_same_conv split: if_splits)
  moreover from Nil have "inst\<lparr>scheduledActions := scheduledActions inst\<rparr> = inst" by simp
  moreover from Nil have "e\<lparr>currentScript := Some inst\<rparr> = e" by (cases e) simp
  ultimately show ?case by simp
next
  case (Cons job rest)
  let ?h = "nextHandle s"
  let ?inst1 = "inst\<lparr>scheduledActions := scheduledActions inst @ [?h]\<rparr>"
  let ?e1 = "e\<lparr>currentScript := Some ?inst1\<rparr>"
  let ?s1 = "pushScheduled i ?h (snd (setTimeout (fst job) (snd job) now (Some iid) s))"
  have len: "i < length (eyeSets s)" using Cons.prems(1) by (rule eyeSetAt_Some_length)
  have s1: "?s1 = s\<lparr>timers := timers s @ [(?h, \<lparr>due = real_of_int now + snd job, owner = Some iid, callback = fst job\<rparr>)],
                     nextHandle := Suc ?h,
                     eyeSets := (eyeSets s)[i := Some ?e1]\<rparr>"
    using Cons.prems
    by (simp add: setTimeout_def pushScheduled_def updInstance_def updEyeSet_def putEyeSet_def
        eyeSetAt_def split: if_splits)
  have e1: "eyeSetAt ?s1 i = Some ?e1"
    unfolding s1 using len by (simp add: eyeSetAt_def)
  have c1: "currentScript ?e1 = Some ?inst1" by simp
  have upt: "[?h..<?h + length (job # rest)] = ?h # [Suc ?h..<Suc ?h + length rest]"
    using upt_conv_Cons [of ?h "?h + length (job # rest)"] by simp
  have step: "scheduleEach now i iid (job # rest) s = scheduleEach now i iid rest ?s1"
    by (simp add: setTimeout_def Let_def)
  show ?case
    unfolding step Cons.IH [OF e1 c1] upt
    by (simp add: s1)
qed

lemma registerInstance_result:
  assumes "eyeSetAt s i = Some e"
  shows "registerInstance now i sc s = (nextInstId s, registered now i sc s e)"
  using assms eyeSetAt_Some_length [OF assms]
  by (auto simp: registerInstance_def registered_def stopEyeSetAnimations_def updEyeSet_def
      putEyeSet_def eyeSetAt_def Let_def split: if_splits)

lemma scheduleScript_each:
  "scheduleScript now i iid sid sc entries s =
     scheduleEach now i iid (scriptJobs i iid sid sc entries) s"
  by (cases "interactions sc")
     (simp_all add: scheduleScript_def scriptJobs_def scheduleEach_append scheduleTimeline_each
       scheduleInteractions_each Let_def split: prod.splits)

lemma executeScript_success:
  assumes e: "eyeSetAt s i = Some e" and vis: "visible e"
    and load: "loadScript fetch (loadedScripts s) sid = (Some sc, cache)"
    and tl: "timeline sc = Some entries"
  shows "executeScript fetch now i sid s =
     (Some (nextInstId s),
      s\<lparr>loadedScripts := cache,
        eyeSets := (eyeSets s)[i := Some (e\<lparr>animationsRunning := False, behavior := SCRIPTED,
            lastBehaviorChange := now,
            currentScript := Some \<lparr>instId = nextInstId s, scriptObject = sc, setIndex = i,
              startTime = now,
              scheduledActions =
                [nextHandle s..<nextHandle s + length (scriptJobs i (nextInstId s) sid sc entries)],
              interactionInstances = [], isRunning = True, onComplete = None\<rparr>\<rparr>)],
        nextInstId := Suc (nextInstId s),
        scriptInstances := mapSet i (nextInstId s) (scriptInstances s),
        timers := timers s @
          newTimers now (nextInstId s) (nextHandle s) (scriptJobs i (nextInstId s) sid sc entries),
        nextHandle := nextHandle s + length (scriptJobs i (nextInstId s) sid sc entries)\<rparr>)"
proof -
  let ?s0 = "s\<lparr>loadedScripts := cache\<rparr>"
  let ?r = "registered now i sc ?s0 e"
  let ?inst = "\<lparr>instId = nextInstId s, scriptObject = sc, setIndex = i,
              startTime = now, scheduledActions = [], interactionInstances = [],
              isRunning = True, onComplete = None\<rparr>"
  let ?e = "e\<lparr>animationsRunning := False, behavior := SCRIPTED,
            lastBehaviorChange := now, currentScript := Some ?inst\<rparr>"
  have len: "i < length (eyeSets s)" using e by (rule eyeSetAt_Some_length)
  have e0: "eyeSetAt ?s0 i = Some e" using e by (simp add: eyeSetAt_cong [of ?s0 s])
  have er: "eyeSetAt ?r i = Some ?e"
    using len by (simp add: registered_def eyeSetAt_def)
  have cr: "currentScript ?e = Some ?inst" by simp
  have "executeScript fetch now i sid s =
      (Some (nextInstId s), scheduleEach now i (nextInstId s)
          (scriptJobs i (nextInstId s) sid sc entries) ?r)"
    using e vis load tl registerInstance_result [OF e0, of now sc]
    by (simp add: executeScript_def scheduleScript_each)
  then show ?thesis
    by (simp add: scheduleEach_result [OF er cr]) (simp add: registered_def)
qed

section \<open>The director's evaluation\<close>




lemma weightedRandomScriptChoice_state:
  "\<exists>k. snd (weightedRandomScriptChoice rnd ids s) = s\<lparr>randomCalls := k\<rparr>"
proof (cases "filter (\<lambda>sid. map_of (loadedScripts s) sid \<noteq> None \<and>
                          map_of (scriptWeights (config s)) sid \<noteq> None) ids")
  case Nil
  then have "snd (weightedRandomScriptChoice rnd ids s) = s\<lparr>randomCalls := randomCalls s\<rparr>"
    by (simp add: weightedRandomScriptChoice_def)
  then show ?thesis by blast
next
  case (Cons a list)
  then have "snd (weightedRandomScriptChoice rnd ids s) = s\<lparr>randomCalls := Suc (randomCalls s)\<rparr>"
    by (simp add: weightedRandomScriptChoice_def mathRandom_def Let_def split: option.splits)
  then show ?thesis by blast
qed

lemma triggerDirectorScript_state:
  "\<exists>k. snd (triggerDirectorScript rnd i vis s) = s\<lparr>randomCalls := k\<rparr>"
proof -
  obtain b s1 where b: "(if length vis > 1
             then (let (r, s') = mathRandom rnd s in (r < interactionChance (director s'), s'))
             else (False, s)) = (b, s1)"
    by (cases "(if length vis > 1
             then (let (r, s') = mathRandom rnd s in (r < interactionChance (director s'), s'))
             else (False, s))") auto
  then have "\<exists>k. s1 = s\<lparr>randomCalls := k\<rparr>"
  proof (cases "length vis > 1")
    case True
    with b have "s1 = s\<lparr>randomCalls := Suc (randomCalls s)\<rparr>"
      by (auto simp: mathRandom_def)
    then show ?thesis by blast
  next
    case False
    with b have "s1 = s\<lparr>randomCalls := randomCalls s\<rparr>" by simp
    then show ?thesis by blast
  qed
  then obtain k1 where s1: "s1 = s\<lparr>randomCalls := k1\<rparr>" by blast
  let ?ids = "if b then multipleEyesVisible (config s1) else singleEyeVisible (config s1)"
  obtain k2 where k2: "snd (weightedRandomScriptChoice rnd ?ids s1) = s1\<lparr>randomCalls := k2\<rparr>"
    using weightedRandomScriptChoice_state by blast
  have "snd (triggerDirectorScript rnd i vis s) = snd (weightedRandomScriptChoice rnd ?ids s1)"
    unfolding triggerDirectorScript_def b
    by (simp add: Let_def split: prod.splits option.splits)
  with k2 s1 have "snd (triggerDirectorScript rnd i vis s) = s\<lparr>randomCalls := k2\<rparr>" by simp
  then show ?thesis by blast
qed



lemma executeScript_cases:
  obtains (refused) "executeScript fetch now i sid s = (None, s)"
  | (registered) e sc cache where "eyeSetAt s i = Some e" "visible e"
      "loadScript fetch (loadedScripts s) sid = (Some sc, cache)" "timeline sc = None"
      "executeScript fetch now i sid s = (None, registered now i sc (s\<lparr>loadedScripts := cache\<rparr>) e)"
  | (started) e sc cache entries where "eyeSetAt s i = Some e" "visible e"
      "loadScript fetch (loadedScripts s) sid = (Some sc, cache)" "timeline sc = Some entries"
proof (cases "eyeSetAt s i = None \<or> (\<exists>e. eyeSetAt s i = Some e \<and> \<not> visible e) \<or>
           fst (loadScript fetch (loadedScripts s) sid) = None")
  case True
  then have "executeScript fetch now i sid s = (None, s)"
    by (rule executeScript_refuses)
  then show ?thesis by (rule refused)
next
  case False
  then obtain e sc cache where e: "eyeSetAt s i = Some e" "visible e"
    and load: "loadScript fetch (loadedScripts s) sid = (Some sc, cache)"
    by (cases "loadScript fetch (loadedScripts s) sid") auto
  show ?thesis
  proof (cases "timeline sc")
    case None
    have e0: "eyeSetAt (s\<lparr>loadedScripts := cache\<rparr>) i = Some e"
      using e by (simp add: eyeSetAt_cong [of "s\<lparr>loadedScripts := cache\<rparr>" s])
    have "executeScript fetch now i sid s =
        (None, registered now i sc (s\<lparr>loadedScripts := cache\<rparr>) e)"
      using e load None registerInstance_result [OF e0, of now sc]
      by (simp add: executeScript_def)
    with e load None show ?thesis by (rule registered)
  next
    case (Some entries)
    with e load show ?thesis by (rule started)
  qed
qed








section \<open>Runs of the engine\<close>

subsection \<open>The example runs, step by step\<close>

lemmas example_defs = blinkAt_def actionKey_def paramsOrEmpty_def timeOf_def durationMs_def
  noParams_def blinkTimer_def completionTimer_def startedInstance_def scriptedEyeSet_def
  idleEyeSet_def hiddenEyeSet_def

lemma load_wink:
  "loadScript scriptDirectory [] ''wink'' = (Some winkScript, [(''wink'', winkScript)])"
  by code_simp

lemma load_stare:
  "loadScript scriptDirectory [(''wink'', winkScript)] ''stare'' =
     (Some stareScript, [(''wink'', winkScript), (''stare'', stareScript)])"
  by code_simp

lemma load_duet:
  "loadScript scriptDirectory [] ''duet'' = (Some duetScript, [(''duet'', duetScript)])"
  by code_simp

lemma load_wink_after_duet:
  "loadScript scriptDirectory [(''duet'', duetScript)] ''wink'' =
     (Some winkScript, [(''duet'', duetScript), (''wink'', winkScript)])"
  by code_simp

lemma idleEyeSet_visible: "visible idleEyeSet"
  by (simp add: idleEyeSet_def)

lemma upt_3: "[n..<n + 3] = [n, Suc n, Suc (Suc n)]"
  by (simp add: upt_rec)

lemma upt_4: "[n..<n + 4] = [n, Suc n, Suc (Suc n), Suc (Suc (Suc n))]"
  by (simp add: upt_rec)

lemma wink_started:
  "executeScript scriptDirectory 0 0 ''wink'' startState = (Some 0, winkStartedState)"
proof -
  have e: "eyeSetAt startState 0 = Some idleEyeSet" by (rule startState_eyeSets)
  have l: "loadScript scriptDirectory (loadedScripts startState) ''wink'' =
      (Some winkScript, [(''wink'', winkScript)])"
    using load_wink by (simp add: startState_def)
  have t: "timeline winkScript = Some [blinkAt 0, blinkAt 1.5]" by (simp add: winkScript_def)
  have jobs: "scriptJobs 0 0 ''wink'' winkScript [blinkAt 0, blinkAt 1.5] =
      [(RunAction 0 ''blink'' noParams, 0), (RunAction 0 ''blink'' noParams, 1500),
       (RunCompletion 0, 2000)]"
    by (simp add: scriptJobs_def winkScript_def example_defs)
  have n: "nextInstId startState = 0" "nextHandle startState = 0" "timers startState = []"
    "scriptInstances startState = []"
    by (simp_all add: startState_def)
  show ?thesis
    unfolding executeScript_success [OF e idleEyeSet_visible l t] n jobs
    using upt_3 [of 0]
    by (simp add: winkStartedState_def startState_def example_defs eval_nat_numeral)
qed

lemma wink_first_action:
  "fireTimer steadyRandom scriptDirectory 0 0 winkStartedState = winkRunningState"
  by code_simp

lemma winkRunning_state: "winkRunning = winkRunningState"
  by (simp add: winkRunning_def wink_started wink_first_action)

lemma stare_started:
  "executeScript scriptDirectory 1000 0 ''stare'' winkRunningState = (Some 1, stareStartedState)"
proof -
  let ?e = "scriptedEyeSet (startedInstance 0 winkScript 0 0 [0, 1, 2]) 0"
  have e: "eyeSetAt winkRunningState 0 = Some ?e"
    by (simp add: eyeSetAt_def winkRunningState_def winkStartedState_def startState_def)
  have v: "visible ?e" by (simp add: scriptedEyeSet_def)
  have l: "loadScript scriptDirectory (loadedScripts winkRunningState) ''stare'' =
      (Some stareScript, [(''wink'', winkScript), (''stare'', stareScript)])"
    using load_stare by (simp add: winkRunningState_def winkStartedState_def)
  have t: "timeline stareScript = Some [blinkAt 0, blinkAt 8]" by (simp add: stareScript_def)
  have jobs: "scriptJobs 0 1 ''stare'' stareScript [blinkAt 0, blinkAt 8] =
      [(RunAction 0 ''blink'' noParams, 0), (RunAction 0 ''blink'' noParams, 8000),
       (RunCompletion 0, 10000)]"
    by (simp add: scriptJobs_def stareScript_def example_defs)
  have n: "nextInstId winkRunningState = 1" "nextHandle winkRunningState = 3"
    "scriptInstances winkRunningState = [(0, 0)]"
    by (simp_all add: winkRunningState_def winkStartedState_def)
  show ?thesis
    unfolding executeScript_success [OF e v l t] n jobs
    using upt_3 [of 3]
    by (simp add: stareStartedState_def winkRunningState_def winkStartedState_def
        startState_def example_defs eval_nat_numeral)
qed

lemma stareStarted_state: "stareStarted = stareStartedState"
  by (simp add: stareStarted_def winkRunning_state stare_started)

lemma stale_action_fires:
  "events (fireTimer steadyRandom scriptDirectory 1500 1 stareStartedState) =
     events stareStartedState @ [ActionCalled ''actionBlink'' 0 noParams]"
  by code_simp

lemma stale_completion_fires:
  "running (fireTimer steadyRandom scriptDirectory 2000 2 stareStartedState) 0 = None"
  by code_simp

lemma pending_winkRunningState:
  "pending winkRunningState =
     [(1, Some 0, RunAction 0 ''blink'' noParams), (2, Some 0, RunCompletion 0)]"
  by code_simp

lemma pending_stareStartedState:
  "pending stareStartedState =
     [(1, Some 0, RunAction 0 ''blink'' noParams), (2, Some 0, RunCompletion 0),
      (3, Some 1, RunAction 0 ''blink'' noParams), (4, Some 1, RunAction 0 ''blink'' noParams),
      (5, Some 1, RunCompletion 0)]"
  by code_simp

lemma running_winkRunningState: "running winkRunningState 0 = Some 0"
  by code_simp

lemma running_stareStartedState: "running stareStartedState 0 = Some 1"
  by code_simp

text \<open>
  C1 fails on the code. \<open>wink\<close> runs on eye-set 0 as instance 0, with an action timer
  (handle 1) and its completion timer (handle 2) pending. \<open>executeScript\<close> then starts
  \<open>stare\<close> on the same eye-set as instance 1: both timers of instance 0 are still
  pending after the call. The action timer of the old instance fires at 1500 and its
  handler is called; the completion timer of the old instance fires at 2000 and ends
  the new script, nine seconds early.
\<close>

theorem executeScript_leaves_prior_timers:
  "running winkRunning 0 = Some 0 \<and>
   pending winkRunning =
     [(1, Some 0, RunAction 0 ''blink'' noParams), (2, Some 0, RunCompletion 0)] \<and>
   fst (executeScript scriptDirectory 1000 0 ''stare'' winkRunning) = Some 1 \<and>
   pending stareStarted =
     [(1, Some 0, RunAction 0 ''blink'' noParams), (2, Some 0, RunCompletion 0),
      (3, Some 1, RunAction 0 ''blink'' noParams), (4, Some 1, RunAction 0 ''blink'' noParams),
      (5, Some 1, RunCompletion 0)] \<and>
   events (fireTimer steadyRandom scriptDirectory 1500 1 stareStarted) =
     events stareStarted @ [ActionCalled ''actionBlink'' 0 noParams] \<and>
   running stareStarted 0 = Some 1 \<and>
   running (fireTimer steadyRandom scriptDirectory 2000 2 stareStarted) 0 = None"
  unfolding stareStarted_state winkRunning_state stare_started fst_conv
  by (intro conjI refl running_winkRunningState pending_winkRunningState
      pending_stareStartedState stale_action_fires running_stareStartedState
      stale_completion_fires)

lemma duet_started:
  "executeScript scriptDirectory 0 0 ''duet'' startState = (Some 0, duetStartedState)"
proof -
  have e: "eyeSetAt startState 0 = Some idleEyeSet" by (rule startState_eyeSets)
  have l: "loadScript scriptDirectory (loadedScripts startState) ''duet'' =
      (Some duetScript, [(''duet'', duetScript)])"
    using load_duet by (simp add: startState_def)
  have t: "timeline duetScript = Some [blinkAt 0, blinkAt 5]" by (simp add: duetScript_def)
  have jobs: "scriptJobs 0 0 ''duet'' duetScript [blinkAt 0, blinkAt 5] =
      [(RunAction 0 ''blink'' noParams, 0), (RunAction 0 ''blink'' noParams, 5000),
       (RunInteraction 0 0 duetInteraction ''duet'', 1000), (RunCompletion 0, 6000)]"
    by (simp add: scriptJobs_def duetScript_def duetInteraction_def example_defs)
  have n: "nextInstId startState = 0" "nextHandle startState = 0" "timers startState = []"
    "scriptInstances startState = []"
    by (simp_all add: startState_def)
  show ?thesis
    unfolding executeScript_success [OF e idleEyeSet_visible l t] n jobs
    using upt_4 [of 0]
    by (simp add: duetStartedState_def startState_def example_defs eval_nat_numeral)
qed

lemma duet_cleared: "clearTimeout 2 duetStartedState = duetClearedState"
  by (simp add: clearTimeout_def duetClearedState_def duetStartedState_def example_defs)

lemma duet_child_started:
  "executeScript scriptDirectory 1000 1 ''wink'' duetClearedState = (Some 1, duetChildState)"
proof -
  have e: "eyeSetAt duetClearedState 1 = Some idleEyeSet"
    by (simp add: eyeSetAt_def duetClearedState_def duetStartedState_def startState_def)
  have l: "loadScript scriptDirectory (loadedScripts duetClearedState) ''wink'' =
      (Some winkScript, [(''duet'', duetScript), (''wink'', winkScript)])"
    using load_wink_after_duet by (simp add: duetClearedState_def duetStartedState_def)
  have t: "timeline winkScript = Some [blinkAt 0, blinkAt 1.5]" by (simp add: winkScript_def)
  have jobs: "scriptJobs 1 1 ''wink'' winkScript [blinkAt 0, blinkAt 1.5] =
      [(RunAction 1 ''blink'' noParams, 0), (RunAction 1 ''blink'' noParams, 1500),
       (RunCompletion 1, 2000)]"
    by (simp add: scriptJobs_def winkScript_def example_defs)
  have n: "nextInstId duetClearedState = 1" "nextHandle duetClearedState = 4"
    "scriptInstances duetClearedState = [(0, 0)]"
    by (simp_all add: duetClearedState_def duetStartedState_def)
  show ?thesis
    unfolding executeScript_success [OF e idleEyeSet_visible l t] n jobs
    using upt_3 [of 4]
    by (simp add: duetChildState_def duetJoinedState_def duetClearedState_def
        duetStartedState_def startState_def example_defs eval_nat_numeral)
qed

lemma duet_child_pushed: "pushInteraction 0 0 (Some 1) duetChildState = duetJoinedState"
  by (simp add: pushInteraction_def updInstance_def updEyeSet_def putEyeSet_def eyeSetAt_def
      duetChildState_def duetJoinedState_def duetEyeSet_def duetInstance_def
      startedInstance_def scriptedEyeSet_def)

lemma duet_joined:
  "fireTimer steadyRandom scriptDirectory 1000 2 duetStartedState = duetJoinedState"
proof -
  have m: "map_of (timers duetStartedState) 2 =
      Some \<lparr>due = 1000, owner = Some 0, callback = RunInteraction 0 0 duetInteraction ''duet''\<rparr>"
    by (simp add: duetStartedState_def blinkTimer_def completionTimer_def)
  have t: "targetSet duetInteraction = 1" "i_scriptId duetInteraction = Some ''wink''"
    by (simp_all add: duetInteraction_def)
  have "runCallback steadyRandom scriptDirectory 1000
          (RunInteraction 0 0 duetInteraction ''duet'') duetClearedState = duetJoinedState"
    by (simp add: runCallback_def t duet_child_started duet_child_pushed del: One_nat_def)
  with m show ?thesis
    by (simp add: fireTimer_def duet_cleared)
qed

lemma duet_stopped: "stopScript 1200 0 duetJoinedState = duetStoppedState"
  by code_simp

lemma duetJoined_state: "duetJoined = duetJoinedState"
  by (simp add: duetJoined_def duetStarted_def duet_started duet_joined)

lemma duetStopped_state: "duetStopped = duetStoppedState"
  by (simp add: duetStopped_def duetJoined_state duet_stopped)

lemma child_action_fires:
  "events (fireTimer steadyRandom scriptDirectory 2500 5 duetStoppedState) =
     events duetStoppedState @ [ActionCalled ''actionBlink'' 1 noParams]"
  by code_simp

lemma duetJoinedState_eyeSet: "eyeSetAt duetJoinedState 0 = Some duetEyeSet"
  by (simp add: eyeSetAt_def duetJoinedState_def duetStartedState_def startState_def)

lemma duetInstance_children: "interactionInstances duetInstance = [Some 1]"
  by (simp add: duetInstance_def)

lemma running_duetJoinedState: "running duetJoinedState 1 = Some 1"
  by code_simp

lemma running_duetStoppedState: "running duetStoppedState 1 = Some 1"
  by code_simp

lemma pending_duetJoinedState:
  "pending duetJoinedState =
     [(0, Some 0, RunAction 0 ''blink'' noParams), (1, Some 0, RunAction 0 ''blink'' noParams),
      (3, Some 0, RunCompletion 0),
      (4, Some 1, RunAction 1 ''blink'' noParams), (5, Some 1, RunAction 1 ''blink'' noParams),
      (6, Some 1, RunCompletion 1)]"
  by code_simp

lemma pending_duetStoppedState:
  "pending duetStoppedState =
     [(4, Some 1, RunAction 1 ''blink'' noParams), (5, Some 1, RunAction 1 ''blink'' noParams),
      (6, Some 1, RunCompletion 1)]"
  by code_simp

text \<open>
  C9 as stated fails where it includes the handles of spawned child instances.
  \<open>duet\<close> runs on eye-set 0; its interaction has fired, so eye-set 1 runs \<open>wink\<close> as
  instance 1, recorded in \<open>interactionInstances\<close> of the parent. \<open>stopScript\<close> on
  eye-set 0 cancels the three remaining timers of the parent and none of the child:
  the child keeps running and its next action fires at 2500.
\<close>

theorem stopScript_leaves_child_timers:
  "eyeSetAt duetJoined 0 = Some duetEyeSet \<and>
   interactionInstances duetInstance = [Some 1] \<and>
   running duetJoined 1 = Some 1 \<and>
   pending duetJoined =
     [(0, Some 0, RunAction 0 ''blink'' noParams), (1, Some 0, RunAction 0 ''blink'' noParams),
      (3, Some 0, RunCompletion 0),
      (4, Some 1, RunAction 1 ''blink'' noParams), (5, Some 1, RunAction 1 ''blink'' noParams),
      (6, Some 1, RunCompletion 1)] \<and>
   pending (stopScript 1200 0 duetJoined) =
     [(4, Some 1, RunAction 1 ''blink'' noParams), (5, Some 1, RunAction 1 ''blink'' noParams),
      (6, Some 1, RunCompletion 1)] \<and>
   running (stopScript 1200 0 duetJoined) 1 = Some 1 \<and>
   events (fireTimer steadyRandom scriptDirectory 2500 5 (stopScript 1200 0 duetJoined)) =
     events (stopScript 1200 0 duetJoined) @ [ActionCalled ''actionBlink'' 1 noParams]"
  unfolding duetJoined_state duet_stopped
  by (intro conjI duetJoinedState_eyeSet duetInstance_children running_duetJoinedState
      pending_duetJoinedState pending_duetStoppedState running_duetStoppedState
      child_action_fires)



section \<open>Stopping and completing\<close>

lemma executeScript_keeps_pending:
  "\<exists>new. timers (snd (executeScript fetch now i sid s)) = timers s @ new"
proof (cases rule: executeScript_cases [of fetch now i sid s])
  case refused
  then show ?thesis by simp
next
  case (registered e sc cache)
  then show ?thesis by (simp add: registered_def)
next
  case (started e sc cache entries)
  from executeScript_success [OF started, of now] show ?thesis by simp
qed

lemma ownedBy_after_cancel:
  assumes "tracksOwnTimers s inst"
  shows "filter (\<lambda>ht. owner (snd ht) = Some (instId inst))
           (filter (\<lambda>ht. fst ht \<notin> set (scheduledActions inst)) (timers s)) = []"
  using assms by (auto simp: tracksOwnTimers_def list_all_iff filter_empty_conv)


section \<open>Instances and their timers\<close>

subsection \<open>Extending and advancing\<close>

lemma extends_refl: "extends s s"
  by (simp add: extends_def list_all_iff)

lemma extends_trans:
  assumes "extends s s'" and "extends s' s''"
  shows "extends s s''"
  unfolding extends_def list_all_iff
proof (intro conjI ballI)
  from assms show "nextInstId s \<le> nextInstId s''"
    by (simp add: extends_def)
next
  fix ht assume "ht \<in> set (timers s'')"
  with assms(2) have "ht \<in> set (timers s') \<or>
      (case owner (snd ht) of None \<Rightarrow> True
       | Some k \<Rightarrow> nextInstId s' \<le> k \<and> k < nextInstId s'')"
    by (simp add: extends_def list_all_iff)
  then show "ht \<in> set (timers s) \<or>
      (case owner (snd ht) of None \<Rightarrow> True
       | Some k \<Rightarrow> nextInstId s \<le> k \<and> k < nextInstId s'')"
  proof
    assume "ht \<in> set (timers s')"
    with assms(1) have "ht \<in> set (timers s) \<or>
        (case owner (snd ht) of None \<Rightarrow> True
         | Some k \<Rightarrow> nextInstId s \<le> k \<and> k < nextInstId s')"
      by (simp add: extends_def list_all_iff)
    with assms(2) show ?thesis
      by (auto simp: extends_def split: option.splits)
  next
    assume "case owner (snd ht) of None \<Rightarrow> True
       | Some k \<Rightarrow> nextInstId s' \<le> k \<and> k < nextInstId s''"
    with assms(1) show ?thesis
      by (auto simp: extends_def split: option.splits)
  qed
qed

lemma advances_refl: "advances s s"
  by (simp add: advances_def extends_refl)

lemma advances_trans: "advances s s' \<Longrightarrow> advances s' s'' \<Longrightarrow> advances s s''"
  by (auto simp: advances_def intro: extends_trans)

text \<open>
  The invariant carries over to an extending state whose current instances either
  were current before, up to the fields the invariant reads, or satisfy it afresh.
\<close>

lemma wellTracked_step:
  assumes inv: "wellTracked s" and ext: "extends s s'"
    and cur: "\<forall>inst\<in>set (curInsts s').
                instKey inst \<in> instKey ` set (curInsts s) \<or>
                (instId inst < nextInstId s' \<and> tracksOwnTimers s' inst)"
  shows "wellTracked s'"
proof -
  from ext have mono: "nextInstId s \<le> nextInstId s'" by (simp add: extends_def)
  have own: "ownersBelow s'"
    unfolding ownersBelow_def list_all_iff
  proof
    fix ht assume h: "ht \<in> set (timers s')"
    with ext have "ht \<in> set (timers s) \<or>
        (case owner (snd ht) of None \<Rightarrow> True
         | Some k \<Rightarrow> nextInstId s \<le> k \<and> k < nextInstId s')"
      by (simp add: extends_def list_all_iff)
    with inv mono show "case owner (snd ht) of None \<Rightarrow> True | Some k \<Rightarrow> k < nextInstId s'"
      by (fastforce simp: wellTracked_def ownersBelow_def list_all_iff split: option.splits)
  qed
  have "instId inst < nextInstId s' \<and> tracksOwnTimers s' inst"
    if i: "inst \<in> set (curInsts s')" for inst
  proof -
    from cur i have "instKey inst \<in> instKey ` set (curInsts s) \<or>
        (instId inst < nextInstId s' \<and> tracksOwnTimers s' inst)" by blast
    then show ?thesis
    proof
      assume "instKey inst \<in> instKey ` set (curInsts s)"
      then obtain old where old: "old \<in> set (curInsts s)" "instId old = instId inst"
        "scheduledActions old = scheduledActions inst"
        by (auto simp: instKey_def)
      with inv have o: "instId inst < nextInstId s" "tracksOwnTimers s old"
        by (auto simp: wellTracked_def list_all_iff)
      have "fst ht \<in> set (scheduledActions inst)"
        if "ht \<in> set (timers s')" "owner (snd ht) = Some (instId inst)" for ht
      proof -
        from ext that(1) have "ht \<in> set (timers s) \<or>
            (case owner (snd ht) of None \<Rightarrow> True
             | Some k \<Rightarrow> nextInstId s \<le> k \<and> k < nextInstId s')"
          by (simp add: extends_def list_all_iff)
        with that(2) o(1) have "ht \<in> set (timers s)" by auto
        with o(2) that(2) old show ?thesis
          by (auto simp: tracksOwnTimers_def list_all_iff)
      qed
      with o(1) mono show ?thesis
        by (auto simp: tracksOwnTimers_def list_all_iff)
    qed
  qed
  with own show ?thesis
    by (simp add: wellTracked_def list_all_iff)
qed

lemma in_instOf: "inst \<in> set (instOf eo) \<longleftrightarrow> (\<exists>e. eo = Some e \<and> currentScript e = Some inst)"
proof (cases eo)
  case None
  then show ?thesis by simp
next
  case (Some e)
  then show ?thesis by (cases "currentScript e") auto
qed

lemma in_curInsts:
  "inst \<in> set (curInsts s) \<longleftrightarrow> (\<exists>e. Some e \<in> set (eyeSets s) \<and> currentScript e = Some inst)"
  unfolding curInsts_def by (simp add: in_instOf) blast

lemma curInsts_update:
  assumes "inst \<in> set (curInsts s')" and "eyeSets s' = (eyeSets s)[i := Some e']"
  shows "inst \<in> set (curInsts s) \<or> currentScript e' = Some inst"
proof -
  from assms obtain e where e: "Some e \<in> set ((eyeSets s)[i := Some e'])"
    and c: "currentScript e = Some inst"
    unfolding in_curInsts by auto
  from e set_update_subset_insert [of "eyeSets s" i "Some e'"]
  have "e = e' \<or> Some e \<in> set (eyeSets s)" by blast
  with c show ?thesis unfolding in_curInsts by blast
qed

lemma curInsts_member:
  assumes "eyeSetAt s i = Some e" and "currentScript e = Some inst"
  shows "inst \<in> set (curInsts s)"
proof -
  from assms(1) have "i < length (eyeSets s)" "eyeSets s ! i = Some e"
    by (simp_all add: eyeSetAt_def split: if_splits)
  then have "Some e \<in> set (eyeSets s)" by (metis nth_mem)
  with assms(2) show ?thesis unfolding in_curInsts by blast
qed

text \<open>A change that leaves the timers, the eye-sets and the instance counter alone.\<close>

lemma advances_same:
  assumes "timers s' = timers s" and "nextInstId s' = nextInstId s" and "eyeSets s' = eyeSets s"
  shows "advances s s'"
proof -
  have a: "ownersBelow s' = ownersBelow s"
    unfolding ownersBelow_def assms by (rule refl)
  have b: "curInsts s' = curInsts s"
    unfolding curInsts_def assms by (rule refl)
  have c: "tracksOwnTimers s' inst = tracksOwnTimers s inst" for inst
    unfolding tracksOwnTimers_def assms by (rule refl)
  have "extends s s'"
    unfolding extends_def assms by (simp add: list_all_iff)
  then show ?thesis
    unfolding advances_def wellTracked_def a b c assms by simp
qed

text \<open>An update of an eye-set that keeps what the invariant reads of its instance.\<close>

lemma advances_updEyeSet:
  assumes "\<And>e. map_option instKey (currentScript (f e)) = map_option instKey (currentScript e)"
  shows "advances s (updEyeSet i f s)"
proof (cases "eyeSetAt s i")
  case None
  then show ?thesis by (simp add: updEyeSet_def advances_refl)
next
  case (Some e)
  let ?s' = "s\<lparr>eyeSets := (eyeSets s)[i := Some (f e)]\<rparr>"
  have s': "updEyeSet i f s = ?s'" using Some by (rule updEyeSet_Some)
  have ext: "extends s ?s'" by (simp add: extends_def list_all_iff)
  have "wellTracked ?s'" if inv: "wellTracked s"
  proof (rule wellTracked_step [OF inv ext], rule ballI)
    fix inst assume "inst \<in> set (curInsts ?s')"
    then have "inst \<in> set (curInsts s) \<or> currentScript (f e) = Some inst"
      by (rule curInsts_update) simp
    then show "instKey inst \<in> instKey ` set (curInsts s) \<or>
        (instId inst < nextInstId ?s' \<and> tracksOwnTimers ?s' inst)"
    proof
      assume "inst \<in> set (curInsts s)"
      then show ?thesis by blast
    next
      assume c: "currentScript (f e) = Some inst"
      with assms [of e] obtain old where old: "currentScript e = Some old"
        "instKey old = instKey inst"
        by (cases "currentScript e") auto
      from curInsts_member [OF Some old(1)] have "instKey old \<in> instKey ` set (curInsts s)"
        by (rule imageI)
      with old(2) show ?thesis by simp
    qed
  qed
  with ext show ?thesis by (simp add: advances_def s')
qed

lemma advances_clearTimeout: "advances s (clearTimeout h s)"
proof -
  have ext: "extends s (clearTimeout h s)"
    by (simp add: extends_def clearTimeout_def list_all_iff)
  have "wellTracked (clearTimeout h s)" if inv: "wellTracked s"
    by (rule wellTracked_step [OF inv ext]) (simp add: clearTimeout_def curInsts_def)
  with ext show ?thesis by (simp add: advances_def)
qed

lemma advances_setTimeout_unowned: "advances s (snd (setTimeout cb d now None s))"
proof -
  let ?s' = "snd (setTimeout cb d now None s)"
  have ext: "extends s ?s'"
    by (simp add: extends_def setTimeout_def list_all_iff)
  have "wellTracked ?s'" if inv: "wellTracked s"
    by (rule wellTracked_step [OF inv ext]) (simp add: setTimeout_def curInsts_def)
  with ext show ?thesis by (simp add: advances_def)
qed

subsection \<open>The operations advance the state\<close>

lemma advances_completeScript: "advances s (completeScript now i s)"
proof (cases "eyeSetAt s i")
  case None
  then show ?thesis by (simp add: completeScript_def advances_refl)
next
  case (Some e)
  show ?thesis
  proof (cases "currentScript e")
    case None
    with Some show ?thesis by (simp add: completeScript_def advances_refl)
  next
    case (Some inst)
    let ?s' = "completeScript now i s"
    let ?e' = "e\<lparr>currentScript := None, behavior := AUTONOMOUS, lastBehaviorChange := now,
                  animationsRunning := True\<rparr>"
    note r = completeScript_result [OF \<open>eyeSetAt s i = Some e\<close> Some, of now]
    have t: "timers ?s' = filter (\<lambda>ht. fst ht \<notin> set (scheduledActions inst)) (timers s)"
      and n: "nextInstId ?s' = nextInstId s"
      and es: "eyeSets ?s' = (eyeSets s)[i := Some ?e']"
      unfolding r by simp_all
    have ext: "extends s ?s'"
      by (simp add: extends_def t n list_all_iff)
    have "wellTracked ?s'" if inv: "wellTracked s"
    proof (rule wellTracked_step [OF inv ext], rule ballI)
      fix x assume "x \<in> set (curInsts ?s')"
      then have "x \<in> set (curInsts s) \<or> currentScript ?e' = Some x"
        using es by (rule curInsts_update)
      then show "instKey x \<in> instKey ` set (curInsts s) \<or>
          (instId x < nextInstId ?s' \<and> tracksOwnTimers ?s' x)"
        by auto
    qed
    with ext show ?thesis by (simp add: advances_def)
  qed
qed

lemma newTimers_member:
  "ht \<in> set (newTimers now iid h jobs) \<Longrightarrow>
   owner (snd ht) = Some iid \<and> h \<le> fst ht \<and> fst ht < h + length jobs"
  by (induction jobs arbitrary: h) fastforce+

text \<open>A freshly registered instance owns no timer yet.\<close>

lemma fresh_instance_tracked:
  assumes "ownersBelow s" and "timers s' = timers s" and "instId inst = nextInstId s"
  shows "tracksOwnTimers s' inst"
  using assms
  by (fastforce simp: tracksOwnTimers_def ownersBelow_def list_all_iff)

lemma advances_executeScript: "advances s (snd (executeScript fetch now i sid s))"
proof (cases rule: executeScript_cases [of fetch now i sid s])
  case refused
  then show ?thesis by (simp add: advances_refl)
next
  case (registered e sc cache)
  let ?s' = "registered now i sc (s\<lparr>loadedScripts := cache\<rparr>) e"
  let ?inst = "\<lparr>instId = nextInstId s, scriptObject = sc, setIndex = i,
              startTime = now, scheduledActions = [], interactionInstances = [],
              isRunning = True, onComplete = None\<rparr>"
  let ?e' = "e\<lparr>animationsRunning := False, behavior := SCRIPTED,
            lastBehaviorChange := now, currentScript := Some ?inst\<rparr>"
  have t: "timers ?s' = timers s" and n: "nextInstId ?s' = Suc (nextInstId s)"
    and es: "eyeSets ?s' = (eyeSets s)[i := Some ?e']"
    by (simp_all add: registered_def)
  have ext: "extends s ?s'"
    by (simp add: extends_def t n list_all_iff)
  have "wellTracked ?s'" if inv: "wellTracked s"
  proof (rule wellTracked_step [OF inv ext], rule ballI)
    fix x assume "x \<in> set (curInsts ?s')"
    then have "x \<in> set (curInsts s) \<or> currentScript ?e' = Some x"
      using es by (rule curInsts_update)
    then show "instKey x \<in> instKey ` set (curInsts s) \<or>
        (instId x < nextInstId ?s' \<and> tracksOwnTimers ?s' x)"
    proof
      assume "x \<in> set (curInsts s)"
      then show ?thesis by blast
    next
      assume "currentScript ?e' = Some x"
      then have x: "x = ?inst" by simp
      from inv have "ownersBelow s" by (simp add: wellTracked_def)
      then have "tracksOwnTimers ?s' ?inst"
        using t by (rule fresh_instance_tracked) simp
      with n show ?thesis by (simp add: x)
    qed
  qed
  with ext registered(5) show ?thesis by (simp add: advances_def)
next
  case (started e sc cache entries)
  let ?jobs = "scriptJobs i (nextInstId s) sid sc entries"
  let ?inst = "\<lparr>instId = nextInstId s, scriptObject = sc, setIndex = i, startTime = now,
      scheduledActions = [nextHandle s..<nextHandle s + length ?jobs],
      interactionInstances = [], isRunning = True, onComplete = None\<rparr>"
  let ?e' = "e\<lparr>animationsRunning := False, behavior := SCRIPTED,
            lastBehaviorChange := now, currentScript := Some ?inst\<rparr>"
  let ?s' = "snd (executeScript fetch now i sid s)"
  note r = executeScript_success [OF started, of now]
  have t: "timers ?s' = timers s @ newTimers now (nextInstId s) (nextHandle s) ?jobs"
    and n: "nextInstId ?s' = Suc (nextInstId s)"
    and es: "eyeSets ?s' = (eyeSets s)[i := Some ?e']"
    unfolding r by simp_all
  have ext: "extends s ?s'"
    unfolding extends_def t n list_all_iff
    by (auto dest: newTimers_member)
  have "wellTracked ?s'" if inv: "wellTracked s"
  proof (rule wellTracked_step [OF inv ext], rule ballI)
    fix x assume "x \<in> set (curInsts ?s')"
    then have "x \<in> set (curInsts s) \<or> currentScript ?e' = Some x"
      using es by (rule curInsts_update)
    then show "instKey x \<in> instKey ` set (curInsts s) \<or>
        (instId x < nextInstId ?s' \<and> tracksOwnTimers ?s' x)"
    proof
      assume "x \<in> set (curInsts s)"
      then show ?thesis by blast
    next
      assume "currentScript ?e' = Some x"
      then have x: "x = ?inst" by simp
      from inv have below: "ownersBelow s" by (simp add: wellTracked_def)
      have "fst ht \<in> set (scheduledActions ?inst)"
        if "ht \<in> set (timers ?s')" "owner (snd ht) = Some (nextInstId s)" for ht
      proof -
        from that(1) have "ht \<in> set (timers s) \<or>
            ht \<in> set (newTimers now (nextInstId s) (nextHandle s) ?jobs)"
          by (simp add: t)
        then show ?thesis
        proof
          assume "ht \<in> set (timers s)"
          with below that(2) show ?thesis
            by (fastforce simp: ownersBelow_def list_all_iff)
        next
          assume "ht \<in> set (newTimers now (nextInstId s) (nextHandle s) ?jobs)"
          from newTimers_member [OF this] show ?thesis by simp
        qed
      qed
      then have "tracksOwnTimers ?s' ?inst"
        by (simp add: tracksOwnTimers_def list_all_iff)
      with n show ?thesis by (simp add: x)
    qed
  qed
  with ext show ?thesis by (simp add: advances_def)
qed

lemma advances_hooks:
  "advances s (stopEyeSetAnimations i s)"
  "advances s (startEyeSetAnimations i s)"
  "advances s (stopEyeSetTracking i s)"
  "advances s (startEyeSetTracking i s)"
  "advances s (updEyeSet i (\<lambda>e. e\<lparr>behavior := b, lastBehaviorChange := now\<rparr>) s)"
  unfolding stopEyeSetAnimations_def startEyeSetAnimations_def stopEyeSetTracking_def
    startEyeSetTracking_def
  by (rule advances_updEyeSet, simp)+

lemma advances_debouncedSaveState: "advances s (debouncedSaveState s)"
  by (rule advances_same) (simp_all add: debouncedSaveState_def)

lemma advances_executeAction: "advances s (executeAction i actionName ps s)"
  by (rule advances_same) (simp_all add: executeAction_def split: option.splits)

lemma advances_stopScript: "advances s (stopScript now i s)"
  by (simp add: stopScript_def advances_refl advances_completeScript split: option.splits)

lemma advances_setEyeBehavior: "advances s (setEyeBehavior now i b s)"
proof (cases "eyeSetAt s i")
  case None
  then show ?thesis by (simp add: setEyeBehavior_def advances_refl)
next
  case (Some e)
  define s1 where "s1 = (if behavior e = SCRIPTED \<and> currentScript e \<noteq> None then stopScript now i s
                     else if behavior e = TRACKING then stopEyeSetTracking i s
                     else stopEyeSetAnimations i s)"
  define s2 where "s2 = updEyeSet i (\<lambda>e. e\<lparr>behavior := b, lastBehaviorChange := now\<rparr>) s1"
  define s3 where "s3 = (case b of
                       AUTONOMOUS \<Rightarrow> startEyeSetAnimations i s2
                     | TRACKING \<Rightarrow> startEyeSetTracking i s2
                     | SCRIPTED \<Rightarrow> s2)"
  have a1: "advances s s1"
    by (simp add: s1_def advances_stopScript advances_hooks)
  have a2: "advances s1 s2"
    by (simp add: s2_def advances_hooks)
  have a3: "advances s2 s3"
    by (cases b) (simp_all add: s3_def advances_hooks advances_refl)
  have a4: "advances s3 (debouncedSaveState s3)"
    by (rule advances_debouncedSaveState)
  have "setEyeBehavior now i b s = debouncedSaveState s3"
    unfolding s3_def s2_def s1_def using Some by (auto simp: setEyeBehavior_def Let_def)
  with a1 a2 a3 a4 show ?thesis
    by (metis advances_trans)
qed

lemma advances_cycleBehavior: "advances s (cycleBehavior fetch now i s)"
  by (simp add: cycleBehavior_def Let_def advances_refl advances_setEyeBehavior
      advances_executeScript split: option.splits)

lemma advances_randomCalls: "advances s (s\<lparr>randomCalls := k\<rparr>)"
  by (rule advances_same) simp_all

lemma advances_triggerDirectorScript:
  "advances s (snd (triggerDirectorScript rnd i vis s))"
proof -
  obtain k where "snd (triggerDirectorScript rnd i vis s) = s\<lparr>randomCalls := k\<rparr>"
    using triggerDirectorScript_state by blast
  then show ?thesis by (simp add: advances_randomCalls)
qed

lemma advances_scheduleDirectorEvaluation:
  "advances s (scheduleDirectorEvaluation rnd now s)"
proof (cases "enabled (director s)")
  case False
  then show ?thesis by (simp add: scheduleDirectorEvaluation_def advances_refl)
next
  case True
  define s1 where "s1 = s\<lparr>randomCalls := Suc (randomCalls s)\<rparr>"
  define d where "d = evaluationInterval (director s1) + (rnd (randomCalls s) * 2000 - 1000)"
  define s2 where "s2 = snd (setTimeout RunDirector d now None s1)"
  define s3 where "s3 = s2\<lparr>director := (director s2)\<lparr>evaluationTimeoutId := Some (nextHandle s1)\<rparr>\<rparr>"
  have a1: "advances s s1" unfolding s1_def by (rule advances_randomCalls)
  have a2: "advances s1 s2" unfolding s2_def by (rule advances_setTimeout_unowned)
  have a3: "advances s2 s3" unfolding s3_def by (rule advances_same) simp_all
  have "scheduleDirectorEvaluation rnd now s = s3"
    using True
    by (simp add: scheduleDirectorEvaluation_def mathRandom_def Let_def s1_def s2_def s3_def
        d_def setTimeout_def)
  with a1 a2 a3 show ?thesis by (metis advances_trans)
qed

lemma advances_directorVisit:
  "advances (snd cs) (snd (directorVisit rnd now vis idx cs))"
proof -
  obtain calls s where cs: "cs = (calls, s)" by (cases cs)
  let ?s1 = "s\<lparr>randomCalls := Suc (randomCalls s)\<rparr>"
  have a1: "advances s ?s1" by (rule advances_randomCalls)
  have a2: "advances ?s1 (setEyeBehavior now idx b ?s1)" for b
    by (rule advances_setEyeBehavior)
  have a3: "advances ?s1 (snd (triggerDirectorScript rnd idx vis ?s1))"
    by (rule advances_triggerDirectorScript)
  have a4: "advances s' (s'\<lparr>director := dd\<rparr>)" for s' dd
    by (rule advances_same) simp_all
  have "advances s (snd (directorVisit rnd now vis idx (calls, s)))"
  proof (cases "eyeSetAt s idx")
    case None
    then show ?thesis by (simp add: directorVisit_def advances_refl)
  next
    case (Some e)
    show ?thesis
    proof (cases "currentScript e \<noteq> None \<or> now - lastBehaviorChange e < 3000")
      case True
      with Some show ?thesis by (auto simp: directorVisit_def advances_refl)
    next
      case False
      obtain call s2 where tr: "triggerDirectorScript rnd idx vis ?s1 = (call, s2)"
        by (cases "triggerDirectorScript rnd idx vis ?s1")
      with a3 have a3': "advances ?s1 s2" by simp
      have a5: "advances ?s1 (s2\<lparr>director := dd\<rparr>)" for dd
        using a3' a4 [of s2 dd] by (rule advances_trans)
      have "advances ?s1 (snd (directorVisit rnd now vis idx (calls, s)))"
        using Some False tr a2 a5
        by (auto simp: directorVisit_def mathRandom_def Let_def advances_refl)
      with a1 show ?thesis by (rule advances_trans)
    qed
  qed
  then show ?thesis by (simp add: cs)
qed

lemma advances_directorLoop:
  "advances (snd cs) (snd (directorLoop rnd now vis idxs cs))"
proof (induction idxs arbitrary: cs)
  case Nil
  show ?case by (simp add: advances_refl)
next
  case (Cons idx rest)
  from advances_directorVisit [of cs rnd now vis idx]
    Cons.IH [of "directorVisit rnd now vis idx cs"]
  show ?case by (simp add: advances_trans)
qed

lemma advances_runPending: "advances s (runPending fetch now calls s)"
proof (induction calls arbitrary: s)
  case Nil
  show ?case by (simp add: advances_refl)
next
  case (Cons c rest)
  obtain i sid where c: "c = (i, sid)" by (cases c)
  from advances_executeScript [of s fetch now i sid]
    Cons.IH [of "snd (executeScript fetch now i sid s)"]
  show ?case by (simp add: c advances_trans)
qed

lemma advances_evaluateDirector: "advances s (evaluateDirector rnd fetch now s)"
proof -
  obtain calls s1 where l: "directorLoop rnd now (visibleIndices s) (visibleIndices s) ([], s)
      = (calls, s1)"
    by (cases "directorLoop rnd now (visibleIndices s) (visibleIndices s) ([], s)")
  from advances_directorLoop [of "([], s)" rnd now "visibleIndices s" "visibleIndices s"] l
  have a1: "advances s s1" by simp
  have a2: "advances s1 (scheduleDirectorEvaluation rnd now s1)"
    by (rule advances_scheduleDirectorEvaluation)
  have a3: "advances (scheduleDirectorEvaluation rnd now s1)
      (runPending fetch now calls (scheduleDirectorEvaluation rnd now s1))"
    by (rule advances_runPending)
  from a1 a2 a3 have "advances s (runPending fetch now calls (scheduleDirectorEvaluation rnd now s1))"
    by (metis advances_trans)
  then show ?thesis
    by (simp add: evaluateDirector_def Let_def l advances_refl
        advances_scheduleDirectorEvaluation)
qed

lemma advances_pushInteraction: "advances s (pushInteraction i iid child s)"
  unfolding pushInteraction_def updInstance_def
proof (rule advances_updEyeSet)
  fix e :: eyeSet
  show "map_option instKey
          (currentScript
            (e\<lparr>currentScript :=
                 map_option
                  (\<lambda>inst. if instId inst = iid
                          then inst\<lparr>interactionInstances := interactionInstances inst @ [child]\<rparr>
                          else inst)
                  (currentScript e)\<rparr>)) =
        map_option instKey (currentScript e)"
    by (cases "currentScript e") (simp_all add: instKey_def)
qed

lemma advances_runCallback: "advances s (runCallback rnd fetch now cb s)"
proof (cases cb)
  case (RunAction i n ps)
  then show ?thesis by (simp add: runCallback_def advances_executeAction)
next
  case (RunInteraction iid i x sid)
  define target where "target = (if truthyStr (i_scriptId x)
      then (case i_scriptId x of Some t \<Rightarrow> t | None \<Rightarrow> sid) else sid)"
  obtain child s1 where ex: "executeScript fetch now (targetSet x) target s = (child, s1)"
    by (cases "executeScript fetch now (targetSet x) target s")
  from advances_executeScript [of s fetch now "targetSet x" target] ex
  have "advances s s1" by simp
  then have "advances s (pushInteraction i iid child s1)"
    using advances_pushInteraction by (rule advances_trans)
  then show ?thesis
    using RunInteraction ex by (simp add: runCallback_def Let_def target_def)
next
  case (RunCompletion i)
  then show ?thesis by (simp add: runCallback_def advances_completeScript)
next
  case RunDirector
  then show ?thesis by (simp add: runCallback_def advances_evaluateDirector)
qed

lemma advances_fireTimer: "advances s (fireTimer rnd fetch now h s)"
proof (cases "map_of (timers s) h")
  case None
  then show ?thesis by (simp add: fireTimer_def advances_refl)
next
  case (Some t)
  from advances_clearTimeout [of s h]
    advances_runCallback [of "clearTimeout h s" rnd fetch now "callback t"]
  have "advances s (runCallback rnd fetch now (callback t) (clearTimeout h s))"
    by (rule advances_trans)
  with Some show ?thesis by (simp add: fireTimer_def advances_refl)
qed

subsection \<open>Runs\<close>

lemma advances_perform: "advances s (perform rnd fetch now c s)"
  by (cases c)
     (simp_all add: advances_executeScript advances_stopScript advances_setEyeBehavior
       advances_cycleBehavior advances_fireTimer advances_evaluateDirector)

lemma advances_run: "advances s (run rnd fetch cmds s)"
proof (induction cmds arbitrary: s)
  case Nil
  show ?case by (simp add: advances_refl)
next
  case (Cons tc rest)
  obtain now c where tc: "tc = (now, c)" by (cases tc)
  from advances_perform [of s rnd fetch now c] Cons.IH [of "perform rnd fetch now c s"]
  show ?case by (simp add: tc advances_trans)
qed

text \<open>Every state reached from a state without timers and running scripts is well tracked.\<close>

lemma wellTracked_initial: "timers s = [] \<Longrightarrow> curInsts s = [] \<Longrightarrow> wellTracked s"
  by (simp add: wellTracked_def ownersBelow_def)

lemma wellTracked_run: "wellTracked s \<Longrightarrow> wellTracked (run rnd fetch cmds s)"
  using advances_run [of s rnd fetch cmds] by (simp add: advances_def)

text \<open>An instance without pending timers never gets one again.\<close>

lemma ownedBy_stays_empty:
  assumes "extends s s'" and "iid < nextInstId s" and "ownedBy iid s = []"
  shows "ownedBy iid s' = []"
  using assms
  by (fastforce simp: extends_def ownedBy_def list_all_iff filter_empty_conv
      split: option.splits)

lemma completed_instance_stays_cancelled:
  assumes inv: "wellTracked s" and e: "eyeSetAt s i = Some e"
    and cur: "currentScript e = Some inst"
  shows "ownedBy (instId inst) (run rnd fetch cmds (completeScript now i s)) = []"
proof -
  from curInsts_member [OF e cur] inv
  have below: "instId inst < nextInstId s" and tr: "tracksOwnTimers s inst"
    by (simp_all add: wellTracked_def list_all_iff)
  note r = completeScript_result [OF e cur, of now]
  have n: "nextInstId (completeScript now i s) = nextInstId s"
    unfolding r by simp
  have "timers (completeScript now i s) =
      filter (\<lambda>ht. fst ht \<notin> set (scheduledActions inst)) (timers s)"
    unfolding r by simp
  with ownedBy_after_cancel [OF tr]
  have empty: "ownedBy (instId inst) (completeScript now i s) = []"
    by (simp add: ownedBy_def)
  from advances_run [of "completeScript now i s" rnd fetch cmds]
  have "extends (completeScript now i s) (run rnd fetch cmds (completeScript now i s))"
    by (simp add: advances_def)
  moreover from below n have "instId inst < nextInstId (completeScript now i s)" by simp
  ultimately show ?thesis
    using empty by (rule ownedBy_stays_empty)
qed

text \<open>
  C9, as the code has it. For an eye-set with a running instance, \<open>stopScript\<close> and
  the expiry of the completion timer both run \<open>completeScript\<close>, which cancels every
  timer whose handle is in the instance's \<open>scheduledActions\<close> (its timeline actions,
  its interaction timers that have not fired, and its completion) and no other, calls
  \<open>onComplete\<close> if set, clears \<open>currentScript\<close>, makes the eye-set autonomous,
  restamps \<open>lastBehaviorChange\<close> and restarts the idle animation. When the instance
  tracks its timers, none of the timers it created is pending afterwards; in a well
  tracked state, which every state reached by the engine is, none is pending after any
  further run of operations either, so no action of the instance is invoked later. The
  timers of instances spawned by its interactions are not in its \<open>scheduledActions\<close>.
\<close>

theorem completeScript_tears_down_instance:
  assumes e: "eyeSetAt s i = Some e" and cur: "currentScript e = Some inst"
  shows "stopScript now i s = completeScript now i s \<and>
         (\<forall>h t. map_of (timers s) h = Some t \<and> callback t = RunCompletion i \<and>
                due t \<le> real_of_int now \<longrightarrow>
                fireTimer rnd fetch now h s = completeScript now i (clearTimeout h s)) \<and>
         timers (completeScript now i s) =
           filter (\<lambda>ht. fst ht \<notin> set (scheduledActions inst)) (timers s) \<and>
         events (completeScript now i s) =
           events s @ (case onComplete inst of None \<Rightarrow> [] | Some cb \<Rightarrow> [OnCompleteCalled cb]) \<and>
         eyeSetAt (completeScript now i s) i =
           Some (e\<lparr>currentScript := None, behavior := AUTONOMOUS, lastBehaviorChange := now,
                   animationsRunning := True\<rparr>) \<and>
         (tracksOwnTimers s inst \<longrightarrow> ownedBy (instId inst) (completeScript now i s) = []) \<and>
         (wellTracked s \<longrightarrow>
            (\<forall>cmds. ownedBy (instId inst) (run rnd fetch cmds (completeScript now i s)) = []))"
proof -
  note r = completeScript_result [OF e cur, of now]
  have len: "i < length (eyeSets s)" using e by (rule eyeSetAt_Some_length)
  have a: "stopScript now i s = completeScript now i s"
    using e cur by (simp add: stopScript_def)
  have b: "\<forall>h t. map_of (timers s) h = Some t \<and> callback t = RunCompletion i \<and>
                due t \<le> real_of_int now \<longrightarrow>
                fireTimer rnd fetch now h s = completeScript now i (clearTimeout h s)"
    by (simp add: fireTimer_def runCallback_def)
  have c: "timers (completeScript now i s) =
           filter (\<lambda>ht. fst ht \<notin> set (scheduledActions inst)) (timers s)"
    unfolding r by simp
  have d: "events (completeScript now i s) =
           events s @ (case onComplete inst of None \<Rightarrow> [] | Some cb \<Rightarrow> [OnCompleteCalled cb])"
    unfolding r by simp
  have f: "eyeSetAt (completeScript now i s) i =
           Some (e\<lparr>currentScript := None, behavior := AUTONOMOUS, lastBehaviorChange := now,
                   animationsRunning := True\<rparr>)"
    unfolding r using len by (simp add: eyeSetAt_def)
  have g: "tracksOwnTimers s inst \<longrightarrow> ownedBy (instId inst) (completeScript now i s) = []"
    unfolding ownedBy_def c using ownedBy_after_cancel by blast
  have h: "wellTracked s \<longrightarrow>
      (\<forall>cmds. ownedBy (instId inst) (run rnd fetch cmds (completeScript now i s)) = [])"
    using completed_instance_stays_cancelled [OF _ e cur] by blast
  from a b c d f g h show ?thesis by blast
qed

lemma duetWatched_eyeSet: "eyeSetAt duetWatched 0 = Some watchedEyeSet"
  unfolding duetWatched_def duetJoined_state by code_simp

lemma watchedEyeSet_current: "currentScript watchedEyeSet = Some watchedInstance"
  by (simp add: watchedEyeSet_def)

lemma duetWatched_tracked: "tracksOwnTimers duetWatched watchedInstance"
  unfolding duetWatched_def duetJoined_state by code_simp

lemma duetWatched_wellTracked: "wellTracked duetWatched"
  unfolding duetWatched_def duetJoined_state by code_simp

lemma duetWatched_events: "events duetWatched = []"
  unfolding duetWatched_def duetJoined_state by code_simp

theorem completeScript_tears_down_instance_witness:
  "tracksOwnTimers duetWatched watchedInstance \<and>
   wellTracked duetWatched \<and>
   onComplete watchedInstance = Some 7 \<and>
   instId watchedInstance = 0 \<and>
   stopScript 1200 0 duetWatched = completeScript 1200 0 duetWatched \<and>
   events (completeScript 1200 0 duetWatched) = [OnCompleteCalled 7] \<and>
   ownedBy 0 (completeScript 1200 0 duetWatched) = [] \<and>
   ownedBy 0 (run steadyRandom scriptDirectory [(2500, FireTimer 5), (3000, FireTimer 6)]
                (completeScript 1200 0 duetWatched)) = [] \<and>
   eyeSetAt (completeScript 1200 0 duetWatched) 0 =
     Some (watchedEyeSet\<lparr>currentScript := None, behavior := AUTONOMOUS,
             lastBehaviorChange := 1200, animationsRunning := True\<rparr>)"
proof -
  have cb: "onComplete watchedInstance = Some 7" "instId watchedInstance = 0"
    by (simp_all add: watchedInstance_def duetInstance_def)
  note t = completeScript_tears_down_instance
    [OF duetWatched_eyeSet watchedEyeSet_current, of 1200 steadyRandom scriptDirectory]
  from t duetWatched_wellTracked
  have later: "ownedBy 0 (run steadyRandom scriptDirectory
                 [(2500, FireTimer 5), (3000, FireTimer 6)]
                 (completeScript 1200 0 duetWatched)) = []"
    unfolding cb by blast
  from t duetWatched_tracked
  have rest: "stopScript 1200 0 duetWatched = completeScript 1200 0 duetWatched \<and>
      events (completeScript 1200 0 duetWatched) = [OnCompleteCalled 7] \<and>
      ownedBy 0 (completeScript 1200 0 duetWatched) = [] \<and>
      eyeSetAt (completeScript 1200 0 duetWatched) 0 =
        Some (watchedEyeSet\<lparr>currentScript := None, behavior := AUTONOMOUS,
                lastBehaviorChange := 1200, animationsRunning := True\<rparr>)"
    by (simp add: cb duetWatched_events)
  from later rest duetWatched_tracked duetWatched_wellTracked cb show ?thesis
    by (intro conjI) blast+
qed

section \<open>The cooldown stamp\<close>

subsection \<open>What an operation on one eye-set leaves alone\<close>











subsection \<open>The script the director selects\<close>











subsection \<open>The pending calls of an evaluation\<close>





subsection \<open>What the visits of the other eye-sets leave alone\<close>









subsection \<open>The evaluation that draws a script for its first eye-set\<close>





















end
